theory Spec2Isabelle
  imports Main "HOL-Library.Word"
begin

section \<open>The crypto layer of libaktualizr (crypto.cc)\<close>

text \<open>
  A shallow embedding of \<^verbatim>\<open>src/libaktualizr/crypto/crypto.cc\<close>. The file is glue
  around three libraries (OpenSSL, libsodium, jsoncpp) and a few Boost string
  algorithms. The Boost string algorithms and the \<^verbatim>\<open>std::string\<close> operations are
  modelled by what they compute; the cryptographic primitives, the PEM parser and
  the helpers of \<^verbatim>\<open>Utils\<close> are parameters, collected in records, so every theorem
  holds for whatever those calls return. An exception is a value \<open>Inl e\<close> of a
  sum type.
\<close>

subsection \<open>Exceptions\<close>

datatype exn =
    runtime_error string
  | logic_error string
  | invalid_argument string
  | range_error string
  | non_hex_input
  | not_enough_input
  | base64_error
  | assertion_failed string

subsection \<open>Characters and strings\<close>

text \<open>\<^verbatim>\<open>::tolower\<close> and \<^verbatim>\<open>::toupper\<close> in the C locale: only the ASCII letters move.\<close>

definition tolower :: "char \<Rightarrow> char" where
  "tolower c =
     (if 65 \<le> (of_char c :: nat) \<and> (of_char c :: nat) \<le> 90
      then char_of ((of_char c :: nat) + 32) else c)"

definition toupper :: "char \<Rightarrow> char" where
  "toupper c =
     (if 97 \<le> (of_char c :: nat) \<and> (of_char c :: nat) \<le> 122
      then char_of ((of_char c :: nat) - 32) else c)"

definition to_lower :: "string \<Rightarrow> string" where
  "to_lower s = map tolower s"

definition to_upper_copy :: "string \<Rightarrow> string" where
  "to_upper_copy s = map toupper s"

text \<open>
  \<^verbatim>\<open>boost::algorithm::hex\<close>: two digits per byte, high nibble first, from the table
  \<^verbatim>\<open>"0123456789ABCDEF"\<close>.
\<close>

definition hex_digits :: string where
  "hex_digits = ''0123456789ABCDEF''"

definition hex_byte :: "char \<Rightarrow> string" where
  "hex_byte c =
     [hex_digits ! ((of_char c :: nat) div 16), hex_digits ! ((of_char c :: nat) mod 16)]"

definition hex :: "string \<Rightarrow> string" where
  "hex s = concat (map hex_byte s)"

text \<open>
  \<^verbatim>\<open>boost::algorithm::unhex\<close>: reads two hexadecimal digits (either case) per output
  byte. A character that is no hexadecimal digit throws \<^verbatim>\<open>non_hex_input\<close>, an
  input that ends inside a byte throws \<^verbatim>\<open>not_enough_input\<close>.
\<close>

definition hex_char_to_int :: "char \<Rightarrow> nat option" where
  "hex_char_to_int c =
     (let n = (of_char c :: nat) in
      if 48 \<le> n \<and> n \<le> 57 then Some (n - 48)
      else if 65 \<le> n \<and> n \<le> 70 then Some (n - 65 + 10)
      else if 97 \<le> n \<and> n \<le> 102 then Some (n - 97 + 10)
      else None)"

fun unhex :: "string \<Rightarrow> exn + string" where
  "unhex [] = Inr []"
| "unhex [c] =
     (case hex_char_to_int c of None \<Rightarrow> Inl non_hex_input | Some h \<Rightarrow> Inl not_enough_input)"
| "unhex (c # d # rest) =
     (case hex_char_to_int c of
        None \<Rightarrow> Inl non_hex_input
      | Some h \<Rightarrow>
          (case hex_char_to_int d of
             None \<Rightarrow> Inl non_hex_input
           | Some l \<Rightarrow>
               (case unhex rest of
                  Inl e \<Rightarrow> Inl e
                | Inr bytes \<Rightarrow> Inr (char_of (16 * h + l) # bytes))))"

text \<open>
  \<^verbatim>\<open>boost::algorithm::trim_right_if(s, pred)\<close>: erase the longest suffix whose
  characters all satisfy \<open>pred\<close>; \<^verbatim>\<open>is_any_of("\n")\<close> holds of the line feed only.
\<close>

definition trim_right_if :: "(char \<Rightarrow> bool) \<Rightarrow> string \<Rightarrow> string" where
  "trim_right_if pred s = rev (dropWhile pred (rev s))"

definition is_any_of :: "string \<Rightarrow> char \<Rightarrow> bool" where
  "is_any_of cs c = (c \<in> set cs)"

definition newline :: char where
  "newline = CHR 0x0A"

subsection \<open>Key types, public keys, hashes\<close>

text \<open>
  Modelled from the spec: the enumerations \<^verbatim>\<open>KeyType\<close> and \<^verbatim>\<open>Hash::Type\<close> are declared
  in \<^verbatim>\<open>libaktualizr/types.h\<close>, which is not among the sources. The spec gives
  \<^verbatim>\<open>KeyType\<close> as the closed enumeration RSA2048, RSA3072, RSA4096, ED25519, Unknown
  and the hash algorithms in the order SHA256, SHA512, UnknownAlgorithm.
\<close>

datatype KeyType = kED25519 | kRSA2048 | kRSA3072 | kRSA4096 | kUnknown

datatype Hash_Type = kSha256 | kSha512 | kUnknownAlgorithm

text \<open>The ordinal that \<^verbatim>\<open><\<close> on \<^verbatim>\<open>Hash::Type\<close> compares.\<close>

fun Type_ordinal :: "Hash_Type \<Rightarrow> nat" where
  "Type_ordinal kSha256 = 0"
| "Type_ordinal kSha512 = 1"
| "Type_ordinal kUnknownAlgorithm = 2"

text \<open>
  The members \<^verbatim>\<open>value_\<close> and \<^verbatim>\<open>type_\<close> of \<^verbatim>\<open>PublicKey\<close> are the fields \<open>pk_value\<close> and
  \<open>pk_type\<close>; the members \<^verbatim>\<open>type_\<close> and \<^verbatim>\<open>hash_\<close> of \<^verbatim>\<open>Hash\<close> are \<open>h_type\<close> and
  \<open>h_hash\<close> (a name cannot end in an underscore here).
\<close>

record PublicKey =
  pk_value :: string
  pk_type :: KeyType

record Hash =
  h_type :: Hash_Type
  h_hash :: string

text \<open>\<^verbatim>\<open>Hash::Hash(Type type, const std::string &hash)\<close>: the digest is stored upper-cased.\<close>

definition Hash_ctor :: "Hash_Type \<Rightarrow> string \<Rightarrow> Hash" where
  "Hash_ctor type hash = \<lparr>h_type = type, h_hash = to_upper_copy hash\<rparr>"

text \<open>\<^verbatim>\<open>Hash::Hash(const std::string &type, const std::string &hash)\<close>.\<close>

definition Hash_of_name :: "string \<Rightarrow> string \<Rightarrow> Hash" where
  "Hash_of_name type hash =
     \<lparr>h_type = (if type = ''sha512'' then kSha512
                else if type = ''sha256'' then kSha256
                else kUnknownAlgorithm),
      h_hash = to_upper_copy hash\<rparr>"

text \<open>
  \<^verbatim>\<open>Hash::shortTag\<close>. The loop carries \<open>best\<close> and \<open>res\<close>;
  \<^verbatim>\<open>res.assign(i.hash_, 0, 12)\<close> copies at most 12 characters from position 0.
\<close>

fun shortTag_loop :: "Hash list \<Rightarrow> Hash_Type \<Rightarrow> string \<Rightarrow> string" where
  "shortTag_loop [] best res = res"
| "shortTag_loop (i # hashes) best res =
     (if Type_ordinal (h_type i) < Type_ordinal best
      then shortTag_loop hashes (h_type i) (take 12 (h_hash i))
      else shortTag_loop hashes best res)"

definition shortTag :: "Hash list \<Rightarrow> string" where
  "shortTag hashes = to_lower (shortTag_loop hashes kUnknownAlgorithm ''(unknown)'')"

subsection \<open>JSON values (jsoncpp)\<close>

datatype Json =
    Json_null
  | Json_bool bool
  | Json_int int
  | Json_string string
  | Json_array "Json list"
  | Json_object "(string \<times> Json) list"

text \<open>
  \<^verbatim>\<open>Json::Value::operator[](key) const\<close>: the member of an object, the null value
  when the key is absent or the value itself is null; on any other value jsoncpp
  throws \<^verbatim>\<open>Json::LogicError\<close>.
\<close>

definition json_index :: "Json \<Rightarrow> string \<Rightarrow> exn + Json" where
  "json_index j key =
     (case j of
        Json_null \<Rightarrow> Inr Json_null
      | Json_object members \<Rightarrow>
          (case map_of members key of None \<Rightarrow> Inr Json_null | Some v \<Rightarrow> Inr v)
      | _ \<Rightarrow> Inl (logic_error ''requires objectValue or nullValue''))"

definition isString :: "Json \<Rightarrow> bool" where
  "isString j = (case j of Json_string s \<Rightarrow> True | _ \<Rightarrow> False)"

definition isObject :: "Json \<Rightarrow> bool" where
  "isObject j = (case j of Json_object members \<Rightarrow> True | _ \<Rightarrow> False)"

text \<open>\<^verbatim>\<open>asString\<close>, used here on string values only.\<close>

definition asString :: "Json \<Rightarrow> string" where
  "asString j = (case j of Json_string s \<Rightarrow> s | _ \<Rightarrow> [])"

subsection \<open>The libraries, as parameters\<close>

text \<open>
  libsodium: the one-shot digests, the detached Ed25519 signature and its
  verification (which returns 0 for a valid signature).
\<close>

record sodium =
  crypto_hash_sha256 :: "string \<Rightarrow> string"
  crypto_hash_sha512 :: "string \<Rightarrow> string"
  crypto_sign_detached :: "string \<Rightarrow> string \<Rightarrow> string"
  crypto_sign_verify_detached :: "string \<Rightarrow> string \<Rightarrow> string \<Rightarrow> int"

text \<open>
  libsodium's multi-part hashing (\<^verbatim>\<open>crypto_hash_sha256_init\<close>, \<^verbatim>\<open>_update\<close>,
  \<^verbatim>\<open>_final\<close>) over a state type \<open>'st\<close>.
\<close>

record 'st multipart =
  mp_init :: "'st"
  mp_update :: "'st \<Rightarrow> string \<Rightarrow> 'st"
  mp_final :: "'st \<Rightarrow> string"

text \<open>
  \<^verbatim>\<open>Utils::fromBase64\<close> and \<^verbatim>\<open>Utils::jsonToCanonicalStr\<close> belong to this repository
  but are not among the sources; they are parameters. \<open>fromBase64\<close> may throw.
\<close>

record utils =
  fromBase64 :: "string \<Rightarrow> exn + string"
  jsonToCanonicalStr :: "Json \<Rightarrow> string"

text \<open>
  OpenSSL. An RSA key is its modulus and exponents; \<^verbatim>\<open>RSA_size\<close> is the size of
  the modulus in bytes, \<^verbatim>\<open>BN_num_bits\<close> the number of significant bits.
\<close>

record RSA =
  rsa_n :: nat
  rsa_e :: nat
  rsa_d :: "nat option"

datatype EVP_PKEY = EVP_PKEY_RSA RSA | EVP_PKEY_other

datatype ENGINE = ENGINE string

datatype BIO = BIO_mem string

fun BN_num_bits :: "nat \<Rightarrow> nat" where
  "BN_num_bits n = (if n = 0 then 0 else Suc (BN_num_bits (n div 2)))"

definition RSA_size :: "RSA \<Rightarrow> nat" where
  "RSA_size rsa = (BN_num_bits (rsa_n rsa) + 7) div 8"

text \<open>
  What the calls into OpenSSL return: whether a memory BIO can be allocated, the
  PEM parsers (on the text of the BIO), the engine's key store, the PSS encoder
  for a given salt length, the raw RSA transforms (\<open>None\<close> for the status -1),
  and the PSS verification status.
\<close>

record openssl =
  BIO_alloc :: "string \<Rightarrow> bool"
  parse_RSA_PUBKEY :: "string \<Rightarrow> RSA option"
  parse_PrivateKey :: "string \<Rightarrow> EVP_PKEY option"
  engine_private_key :: "ENGINE \<Rightarrow> string \<Rightarrow> EVP_PKEY option"
  pss_encode :: "RSA \<Rightarrow> string \<Rightarrow> nat \<Rightarrow> string"
  private_encrypt :: "nat \<Rightarrow> string \<Rightarrow> RSA \<Rightarrow> string option"
  public_decrypt :: "nat \<Rightarrow> string \<Rightarrow> RSA \<Rightarrow> string option"
  verify_PKCS1_PSS :: "RSA \<Rightarrow> string \<Rightarrow> nat \<Rightarrow> string \<Rightarrow> int \<Rightarrow> int"

definition BIO_new_mem_buf :: "openssl \<Rightarrow> string \<Rightarrow> BIO option" where
  "BIO_new_mem_buf L buf = (if BIO_alloc L buf then Some (BIO_mem buf) else None)"

text \<open>The PEM readers return null on a null BIO.\<close>

definition PEM_read_bio_RSA_PUBKEY :: "openssl \<Rightarrow> BIO option \<Rightarrow> RSA option" where
  "PEM_read_bio_RSA_PUBKEY L bio =
     (case bio of None \<Rightarrow> None | Some (BIO_mem buf) \<Rightarrow> parse_RSA_PUBKEY L buf)"

definition PEM_read_bio_PrivateKey :: "openssl \<Rightarrow> BIO option \<Rightarrow> EVP_PKEY option" where
  "PEM_read_bio_PrivateKey L bio =
     (case bio of None \<Rightarrow> None | Some (BIO_mem buf) \<Rightarrow> parse_PrivateKey L buf)"

definition EVP_PKEY_get1_RSA :: "EVP_PKEY \<Rightarrow> RSA option" where
  "EVP_PKEY_get1_RSA key = (case key of EVP_PKEY_RSA rsa \<Rightarrow> Some rsa | EVP_PKEY_other \<Rightarrow> None)"

text \<open>
  OpenSSL's reading of the salt length argument of \<^verbatim>\<open>RSA_padding_add_PKCS1_PSS\<close>
  (\<^verbatim>\<open>crypto/rsa/rsa_pss.c\<close>, and the constants of \<^verbatim>\<open>openssl/rsa.h\<close>): -1 is the
  length of the digest, -2 (and -3) the largest salt the encoded message has room
  for, any other negative value an error. The encoding itself, with its random
  salt, is the parameter \<open>pss_encode\<close>; \<open>None\<close> is the status 0.
\<close>

definition RSA_PSS_SALTLEN_DIGEST :: int where
  "RSA_PSS_SALTLEN_DIGEST = - 1"

definition RSA_PSS_SALTLEN_MAX_SIGN :: int where
  "RSA_PSS_SALTLEN_MAX_SIGN = - 2"

definition RSA_PSS_SALTLEN_MAX :: int where
  "RSA_PSS_SALTLEN_MAX = - 3"

definition pss_emLen :: "RSA \<Rightarrow> int" where
  "pss_emLen rsa =
     (let MSBits = (int (BN_num_bits (rsa_n rsa)) - 1) mod 8
      in int (RSA_size rsa) - (if MSBits = 0 then 1 else 0))"

definition RSA_padding_add_PKCS1_PSS ::
    "openssl \<Rightarrow> RSA \<Rightarrow> string \<Rightarrow> int \<Rightarrow> int \<Rightarrow> string option" where
  "RSA_padding_add_PKCS1_PSS L rsa mHash hLen sLen =
     (let sLen1 = (if sLen = RSA_PSS_SALTLEN_DIGEST then hLen
                   else if sLen = RSA_PSS_SALTLEN_MAX_SIGN then RSA_PSS_SALTLEN_MAX
                   else sLen);
          emLen = pss_emLen rsa
      in if sLen1 < RSA_PSS_SALTLEN_MAX then None
         else if emLen < hLen + 2 then None
         else if sLen1 = RSA_PSS_SALTLEN_MAX
           then Some (pss_encode L rsa mHash (nat (emLen - hLen - 2)))
         else if sLen1 > emLen - hLen - 2 then None
         else Some (pss_encode L rsa mHash (nat sLen1)))"

text \<open>The size of a SHA-256 digest, \<^verbatim>\<open>EVP_MD_size(EVP_sha256())\<close>.\<close>

definition sha256_size :: int where
  "sha256_size = 32"

subsection \<open>Digests\<close>

definition sha256digest :: "sodium \<Rightarrow> string \<Rightarrow> string" where
  "sha256digest S text = crypto_hash_sha256 S text"

definition sha256digestHex :: "sodium \<Rightarrow> string \<Rightarrow> string" where
  "sha256digestHex S text = to_lower (hex (sha256digest S text))"

definition sha512digest :: "sodium \<Rightarrow> string \<Rightarrow> string" where
  "sha512digest S text = crypto_hash_sha512 S text"

definition sha512digestHex :: "sodium \<Rightarrow> string \<Rightarrow> string" where
  "sha512digestHex S text = to_lower (hex (sha512digest S text))"

subsection \<open>Key identification and the public key\<close>

definition IsRsaKeyType :: "KeyType \<Rightarrow> bool" where
  "IsRsaKeyType type =
     (case type of kRSA2048 \<Rightarrow> True | kRSA3072 \<Rightarrow> True | kRSA4096 \<Rightarrow> True | _ \<Rightarrow> False)"

text \<open>
  \<^verbatim>\<open>Crypto::IdentifyRSAKeyType\<close>. \<^verbatim>\<open>key_length\<close> is \<^verbatim>\<open>RSA_size(rsa) * 8\<close>; \<^verbatim>\<open>RSA_size\<close> is
  a byte count far below the range of \<^verbatim>\<open>int\<close>, so the product is taken in the
  natural numbers.
\<close>

definition IdentifyRSAKeyType :: "openssl \<Rightarrow> string \<Rightarrow> exn + KeyType" where
  "IdentifyRSAKeyType L public_key_pem =
     (case BIO_new_mem_buf L public_key_pem of
        None \<Rightarrow> Inl (runtime_error ''BIO_new_mem_buf failed'')
      | Some bufio \<Rightarrow>
          (case PEM_read_bio_RSA_PUBKEY L (Some bufio) of
             None \<Rightarrow> Inr kUnknown
           | Some rsa \<Rightarrow>
               (let key_length = RSA_size rsa * 8
                in if key_length = 2048 then Inr kRSA2048
                   else if key_length = 3072 then Inr kRSA3072
                   else if key_length = 4096 then Inr kRSA4096
                   else Inr kUnknown)))"

text \<open>
  \<^verbatim>\<open>PublicKey::PublicKey(const Json::Value &uptane_json)\<close>. Inside the \<^verbatim>\<open>try\<close> block
  every exception ends in the Unknown key with the empty value; the call of
  \<^verbatim>\<open>IdentifyRSAKeyType\<close> is outside of it.
\<close>

definition unknown_key :: PublicKey where
  "unknown_key = \<lparr>pk_value = [], pk_type = kUnknown\<rparr>"

definition PublicKey_of_json :: "openssl \<Rightarrow> Json \<Rightarrow> exn + PublicKey" where
  "PublicKey_of_json L uptane_json =
     (case json_index uptane_json ''keytype'' of
        Inl ex \<Rightarrow> Inr unknown_key
      | Inr kt \<Rightarrow>
          if \<not> isString kt then Inr unknown_key
          else
            (case json_index uptane_json ''keyval'' of
               Inl ex \<Rightarrow> Inr unknown_key
             | Inr keyval \<Rightarrow>
                 if \<not> isObject keyval then Inr unknown_key
                 else
                   (case json_index keyval ''public'' of
                      Inl ex \<Rightarrow> Inr unknown_key
                    | Inr public \<Rightarrow>
                        if \<not> isString public then Inr unknown_key
                        else
                          (let keytype = map tolower (asString kt);
                               keyvalue = asString public
                           in if keytype = ''ed25519''
                                then Inr \<lparr>pk_value = keyvalue, pk_type = kED25519\<rparr>
                              else if keytype = ''rsa''
                                then (case IdentifyRSAKeyType L keyvalue of
                                        Inl ex \<Rightarrow> Inl ex
                                      | Inr type \<Rightarrow> Inr \<lparr>pk_value = keyvalue, pk_type = type\<rparr>)
                              else Inr \<lparr>pk_value = keyvalue, pk_type = kUnknown\<rparr>))))"

text \<open>
  \<^verbatim>\<open>PublicKey::ToUptane\<close>. \<open>KeyType\<close> has the five values of the \<^verbatim>\<open>switch\<close>, so its
  \<^verbatim>\<open>default\<close> branch (which throws \<^verbatim>\<open>std::range_error\<close>) is never taken. The result
  is the object built by \<^verbatim>\<open>res["keytype"] = ...\<close> and \<^verbatim>\<open>res["keyval"]["public"] = value_\<close>.
\<close>

definition ToUptane :: "PublicKey \<Rightarrow> Json" where
  "ToUptane pk =
     Json_object
       [(''keytype'',
         Json_string
           (case pk_type pk of
              kRSA2048 \<Rightarrow> ''RSA''
            | kRSA3072 \<Rightarrow> ''RSA''
            | kRSA4096 \<Rightarrow> ''RSA''
            | kED25519 \<Rightarrow> ''ED25519''
            | kUnknown \<Rightarrow> ''unknown'')),
        (''keyval'', Json_object [(''public'', Json_string (pk_value pk))])]"

text \<open>\<^verbatim>\<open>PublicKey::KeyId\<close>.\<close>

definition KeyId :: "sodium \<Rightarrow> utils \<Rightarrow> PublicKey \<Rightarrow> string" where
  "KeyId S U pk =
     (let key_content = trim_right_if (is_any_of [newline]) (pk_value pk);
          keyid = hex (sha256digest S (jsonToCanonicalStr U (Json_string key_content)))
      in map tolower keyid)"

subsection \<open>Signing and verification\<close>

text \<open>
  \<^verbatim>\<open>Crypto::RSAPSSSign\<close>. A null \<^verbatim>\<open>engine\<close> is \<open>None\<close>. Every failure returns
  the empty string (the log lines are not modelled). The salt length argument is
  the literal -1 of the source.
\<close>

definition RSAPSSSign :: "openssl \<Rightarrow> sodium \<Rightarrow> ENGINE option \<Rightarrow> string \<Rightarrow> string \<Rightarrow> string" where
  "RSAPSSSign L S engine private_key message =
     (let rsa =
            (case engine of
               Some e \<Rightarrow>
                 (case engine_private_key L e private_key of
                    None \<Rightarrow> None
                  | Some key \<Rightarrow> EVP_PKEY_get1_RSA key)
             | None \<Rightarrow>
                 (case PEM_read_bio_PrivateKey L (BIO_new_mem_buf L private_key) of
                    None \<Rightarrow> None
                  | Some key \<Rightarrow> EVP_PKEY_get1_RSA key))
      in case rsa of
           None \<Rightarrow> []
         | Some rsa \<Rightarrow>
             (let digest = sha256digest S message
              in case RSA_padding_add_PKCS1_PSS L rsa digest sha256_size (- 1) of
                   None \<Rightarrow> []
                 | Some EM \<Rightarrow>
                     (case private_encrypt L (RSA_size rsa) EM rsa of
                        None \<Rightarrow> []
                      | Some pSignature \<Rightarrow> pSignature)))"

definition ED25519Sign :: "sodium \<Rightarrow> string \<Rightarrow> string \<Rightarrow> string" where
  "ED25519Sign S private_key message = crypto_sign_detached S message private_key"

text \<open>\<^verbatim>\<open>Crypto::Sign\<close>; \<^verbatim>\<open>unhex\<close> may throw.\<close>

definition Sign ::
    "openssl \<Rightarrow> sodium \<Rightarrow> KeyType \<Rightarrow> ENGINE option \<Rightarrow> string \<Rightarrow> string \<Rightarrow> exn + string" where
  "Sign L S key_type engine private_key message =
     (if key_type = kED25519
      then (case unhex private_key of
              Inl ex \<Rightarrow> Inl ex
            | Inr key \<Rightarrow> Inr (ED25519Sign S key message))
      else Inr (RSAPSSSign L S engine private_key message))"

text \<open>
  \<^verbatim>\<open>Crypto::RSAPSSVerify\<close>. The BIO is not checked; the salt length argument is
  the literal -2 of the source.
\<close>

definition RSAPSSVerify :: "openssl \<Rightarrow> sodium \<Rightarrow> string \<Rightarrow> string \<Rightarrow> string \<Rightarrow> bool" where
  "RSAPSSVerify L S public_key signature message =
     (case PEM_read_bio_RSA_PUBKEY L (BIO_new_mem_buf L public_key) of
        None \<Rightarrow> False
      | Some rsa \<Rightarrow>
          (case public_decrypt L (length signature) signature rsa of
             None \<Rightarrow> False
           | Some pDecrypted \<Rightarrow>
               (let digest = sha256digest S message
                in verify_PKCS1_PSS L rsa digest 32 pDecrypted (- 2) = 1)))"

text \<open>
  \<^verbatim>\<open>Crypto::ED25519Verify\<close>; \<^verbatim>\<open>crypto_sign_PUBLICKEYBYTES\<close> is 32 and
  \<^verbatim>\<open>crypto_sign_BYTES\<close> is 64. The primitive reads that many bytes at each pointer.
\<close>

definition crypto_sign_PUBLICKEYBYTES :: nat where
  "crypto_sign_PUBLICKEYBYTES = 32"

definition crypto_sign_BYTES :: nat where
  "crypto_sign_BYTES = 64"

definition ED25519Verify :: "sodium \<Rightarrow> string \<Rightarrow> string \<Rightarrow> string \<Rightarrow> bool" where
  "ED25519Verify S public_key signature message =
     (if length public_key < crypto_sign_PUBLICKEYBYTES \<or> length signature < crypto_sign_BYTES
      then False
      else crypto_sign_verify_detached S (take crypto_sign_BYTES signature) message
             (take crypto_sign_PUBLICKEYBYTES public_key) = 0)"

text \<open>
  \<^verbatim>\<open>PublicKey::VerifySignature\<close>. The two arguments of the call are evaluated before
  the call, in an order C++ leaves open; the model takes \<^verbatim>\<open>unhex\<close> first. An
  exception of either passes through: the function has no handler.
\<close>

definition VerifySignature ::
    "openssl \<Rightarrow> sodium \<Rightarrow> utils \<Rightarrow> PublicKey \<Rightarrow> string \<Rightarrow> string \<Rightarrow> exn + bool" where
  "VerifySignature L S U pk signature message =
     (let rsa_case =
            (case fromBase64 U signature of
               Inl ex \<Rightarrow> Inl ex
             | Inr sig \<Rightarrow> Inr (RSAPSSVerify L S (pk_value pk) sig message))
      in case pk_type pk of
           kED25519 \<Rightarrow>
             (case unhex (pk_value pk) of
                Inl ex \<Rightarrow> Inl ex
              | Inr key \<Rightarrow>
                  (case fromBase64 U signature of
                     Inl ex \<Rightarrow> Inl ex
                   | Inr sig \<Rightarrow> Inr (ED25519Verify S key sig message)))
         | kRSA2048 \<Rightarrow> rsa_case
         | kRSA3072 \<Rightarrow> rsa_case
         | kRSA4096 \<Rightarrow> rsa_case
         | kUnknown \<Rightarrow> Inr False)"

subsection \<open>Hashing\<close>

text \<open>\<^verbatim>\<open>Hash::generate(Type, const std::string &)\<close>, the one-shot variant.\<close>

definition Hash_generate :: "sodium \<Rightarrow> Hash_Type \<Rightarrow> string \<Rightarrow> exn + Hash" where
  "Hash_generate S type data =
     (case type of
        kSha256 \<Rightarrow> Inr (Hash_ctor type (hex (sha256digest S data)))
      | kSha512 \<Rightarrow> Inr (Hash_ctor type (hex (sha512digest S data)))
      | kUnknownAlgorithm \<Rightarrow> Inl (invalid_argument ''Unsupported hash type''))"

text \<open>
  A \<^verbatim>\<open>std::istream\<close>: the chunks its buffer will still deliver, in order, and the
  failure state (\<^verbatim>\<open>failbit\<close>, set together with \<^verbatim>\<open>eofbit\<close>). \<^verbatim>\<open>read(s, n)\<close> extracts
  characters across chunks until it has \<open>n\<close> of them or the chunks run out, in
  which case it sets the failure state; in the failure state it extracts nothing.
  \<^verbatim>\<open>gcount()\<close> is the number of characters extracted.
\<close>

record istream =
  pending :: "string list"
  failbit :: bool

fun sgetn :: "nat \<Rightarrow> string list \<Rightarrow> string \<times> string list" where
  "sgetn n [] = ([], [])"
| "sgetn n (c # cs) =
     (if n = 0 then ([], c # cs)
      else if length c \<le> n
        then (case sgetn (n - length c) cs of (d, rest) \<Rightarrow> (c @ d, rest))
      else (take n c, [drop n c] @ cs))"

definition istream_read :: "istream \<Rightarrow> nat \<Rightarrow> string \<times> istream" where
  "istream_read source n =
     (if failbit source then ([], source)
      else (case sgetn n (pending source) of
              (data, rest) \<Rightarrow> (data, \<lparr>pending = rest, failbit = (length data < n)\<rparr>)))"

text \<open>
  Modelled from the spec: the classes \<^verbatim>\<open>MultiPartSHA256Hasher\<close> and
  \<^verbatim>\<open>MultiPartSHA512Hasher\<close> are declared in \<^verbatim>\<open>crypto.h\<close>, which is not among the
  sources; only \<^verbatim>\<open>getHexDigest\<close> is in \<^verbatim>\<open>crypto.cc\<close>. By the spec, a new hasher holds
  a fresh digest state, \<^verbatim>\<open>update\<close> appends to the running digest state, and
  \<^verbatim>\<open>getHash\<close> finalizes and returns the Hash value of the hasher's algorithm.
\<close>

definition getHexDigest :: "'st multipart \<Rightarrow> 'st \<Rightarrow> string" where
  "getHexDigest mp state = hex (mp_final mp state)"

definition getHash :: "Hash_Type \<Rightarrow> 'st multipart \<Rightarrow> 'st \<Rightarrow> Hash" where
  "getHash type mp state = Hash_ctor type (getHexDigest mp state)"

text \<open>
  The loop of \<^verbatim>\<open>Hash::generate(Type, std::istream &, ssize_t *)\<close>: read a block of
  64 KiB into the buffer, feed the first \<^verbatim>\<open>gcount()\<close> bytes of the buffer to the
  hasher, add \<^verbatim>\<open>gcount()\<close> to \<^verbatim>\<open>count\<close> (an \<^verbatim>\<open>ssize_t\<close>, here a 64-bit word), and
  go on while \<^verbatim>\<open>gcount()\<close> is positive.
\<close>

function hash_blocks ::
    "'st multipart \<Rightarrow> 'st \<Rightarrow> istream \<Rightarrow> string \<Rightarrow> 64 word \<Rightarrow> 'st \<times> istream \<times> 64 word" where
  "hash_blocks mp state source buffer count =
     (case istream_read source (64 * 1024) of
        (data, source') \<Rightarrow>
          (let gcount = length data;
               buffer' = data @ drop gcount buffer;
               state' = mp_update mp state (take gcount buffer');
               count' = count + of_nat gcount
           in if gcount > 0 then hash_blocks mp state' source' buffer' count'
              else (state', source', count')))"
  by pat_completeness auto
termination
proof (relation "measure (\<lambda>(mp, state, source, buffer, count). length (concat (pending source)))")
  show "wf (measure (\<lambda>(mp, state, source, buffer, count). length (concat (pending source))))"
    by simp
next
  fix mp :: "'st multipart" and state :: 'st and source buffer and count :: "64 word"
    and data source' gcount buffer' state' count'
  assume rd: "(data, source') = istream_read source (64 * 1024)"
    and gc: "gcount = length data" "0 < gcount"
  have split: "concat cs = d @ concat r" if "sgetn n cs = (d, r)" for n cs d r
    using that
    by (induction n cs arbitrary: d r rule: sgetn.induct) (auto split: if_splits prod.splits)
  from rd gc have nf: "\<not> failbit source"
    by (auto simp: istream_read_def split: if_splits)
  with rd obtain rest where "sgetn (64 * 1024) (pending source) = (data, rest)"
    and "pending source' = rest"
    by (auto simp: istream_read_def split: prod.splits)
  with split gc have "length (concat (pending source')) < length (concat (pending source))"
    by fastforce
  then show "((mp, state', source', buffer', count'), mp, state, source, buffer, count)
      \<in> measure (\<lambda>(mp, state, source, buffer, count). length (concat (pending source)))"
    by simp
qed

text \<open>
  The rest of the streaming \<^verbatim>\<open>Hash::generate\<close> for one hasher: a zeroed buffer, the
  loop from \<^verbatim>\<open>count = 0\<close>, \<^verbatim>\<open>*nread = count\<close> when \<^verbatim>\<open>nread\<close> is not null (the flag
  \<open>nread\<close>), and \<^verbatim>\<open>getHash\<close>. The stream is returned as the loop left it.
\<close>

definition hash_stream ::
    "'st multipart \<Rightarrow> Hash_Type \<Rightarrow> istream \<Rightarrow> bool \<Rightarrow> Hash \<times> 64 word option \<times> istream" where
  "hash_stream mp type source nread =
     (case hash_blocks mp (mp_init mp) source (replicate (64 * 1024) (CHR 0x00)) 0 of
        (state, source', count) \<Rightarrow>
          (getHash type mp state, if nread then Some count else None, source'))"

definition Hash_generate_stream ::
    "'a multipart \<Rightarrow> 'b multipart \<Rightarrow> Hash_Type \<Rightarrow> istream \<Rightarrow> bool
      \<Rightarrow> exn + Hash \<times> 64 word option \<times> istream" where
  "Hash_generate_stream mp256 mp512 type source nread =
     (case type of
        kSha256 \<Rightarrow> Inr (hash_stream mp256 kSha256 source nread)
      | kSha512 \<Rightarrow> Inr (hash_stream mp512 kSha512 source nread)
      | kUnknownAlgorithm \<Rightarrow> Inl (invalid_argument ''Unsupported hash type''))"

subsection \<open>Certificates\<close>

text \<open>
  What the calls of \<^verbatim>\<open>Crypto::generateCert\<close> and \<^verbatim>\<open>Crypto::generateRSAKeyPairEVP\<close>
  into OpenSSL and the random device return. \<open>X509_gmtime_adj\<close> maps an offset in
  seconds to the time set, or fails. \<open>add_entry_accepts\<close> says whether OpenSSL
  accepts an attribute value that passed its size check.
\<close>

record x509_lib =
  X509_new_ok :: bool
  urandom :: nat
  X509_NAME_new_ok :: bool
  add_entry_accepts :: "string \<Rightarrow> string \<Rightarrow> bool"
  X509_set_subject_name_ok :: bool
  RAND_status :: int
  RAND_poll :: int
  BN_set_word_ok :: bool
  RSA_generate_key_ex :: "int \<Rightarrow> RSA option"
  EVP_PKEY_new_ok :: bool
  EVP_PKEY_assign_RSA_ok :: bool
  X509_set_pubkey_ok :: bool
  X509_gmtime_adj :: "int \<Rightarrow> int option"
  X509_sign_ok :: bool

record X509 =
  x_version :: int
  x_serialNumber :: nat
  x_subject :: "(string \<times> string) list"
  x_pubkey :: EVP_PKEY
  x_notBefore :: int
  x_notAfter :: int
  x_signed_with :: "string option"

text \<open>\<^verbatim>\<open>Crypto::generateRSAKeyPairEVP(const int bits)\<close>.\<close>

definition generateRSAKeyPairEVP :: "x509_lib \<Rightarrow> int \<Rightarrow> exn + EVP_PKEY" where
  "generateRSAKeyPairEVP X bits =
     (if bits < 31 then Inl (runtime_error ''RSA key size can't be smaller than 31 bits'')
      else if RAND_status X \<noteq> 1 \<and> RAND_poll X \<noteq> 1
        then Inl (runtime_error ''Random generator has not been sufficiently seeded.'')
      else if \<not> BN_set_word_ok X then Inl (runtime_error ''BN_set_word failed'')
      else
        (case RSA_generate_key_ex X bits of
           None \<Rightarrow> Inl (runtime_error ''RSA_generate_key_ex failed'')
         | Some rsa \<Rightarrow>
             if \<not> EVP_PKEY_new_ok X then Inl (runtime_error ''EVP_PKEY_new failed'')
             else if \<not> EVP_PKEY_assign_RSA_ok X
               then Inl (runtime_error ''EVP_PKEY_assign_RSA failed'')
             else Inr (EVP_PKEY_RSA rsa)))"

text \<open>
  \<^verbatim>\<open>X509_NAME_add_entry_by_txt(subj, field, MBSTRING_ASC, bytes, -1, -1, 0)\<close>. The
  value is passed as \<^verbatim>\<open>c_str()\<close> with the length -1, so OpenSSL reads it up to
  the first NUL. OpenSSL refuses a value whose size is outside the bounds of the
  attribute (\<^verbatim>\<open>crypto/asn1/a_strnid.c\<close>: exactly 2 for C, 1 to 128 for ST, 1 to 64
  for O and for CN), an empty value in particular; what else it refuses is the
  parameter \<open>add_entry_accepts\<close>.
\<close>

definition c_str :: "string \<Rightarrow> string" where
  "c_str s = takeWhile (\<lambda>c. c \<noteq> CHR 0x00) s"

definition entry_size_ok :: "string \<Rightarrow> nat \<Rightarrow> bool" where
  "entry_size_ok field n =
     (if field = ''C'' then n = 2
      else if field = ''ST'' then 1 \<le> n \<and> n \<le> 128
      else if field = ''O'' then 1 \<le> n \<and> n \<le> 64
      else if field = ''CN'' then 1 \<le> n \<and> n \<le> 64
      else True)"

definition X509_NAME_add_entry_by_txt :: "x509_lib \<Rightarrow> string \<Rightarrow> string \<Rightarrow> bool" where
  "X509_NAME_add_entry_by_txt X field bytes =
     (entry_size_ok field (length (c_str bytes)) \<and> add_entry_accepts X field (c_str bytes))"

text \<open>
  \<^verbatim>\<open>Crypto::generateCert\<close>. The subject name grows by one entry per call of
  \<^verbatim>\<open>X509_NAME_add_entry_by_txt\<close>. \<^verbatim>\<open>assert(!cert_cn.empty())\<close> aborts the call when
  it fails, unless the build defines \<^verbatim>\<open>NDEBUG\<close> (the flag \<open>NDEBUG\<close>), which
  compiles the check out. The serial number is drawn from 0 .. 2^20 - 1.
\<close>

definition add_entry :: "(string \<times> string) list \<Rightarrow> string \<Rightarrow> string \<Rightarrow> (string \<times> string) list" where
  "add_entry subj field bytes = subj @ [(field, bytes)]"

definition generateCert ::
    "bool \<Rightarrow> x509_lib \<Rightarrow> int \<Rightarrow> int \<Rightarrow> string \<Rightarrow> string \<Rightarrow> string \<Rightarrow> string \<Rightarrow> bool
      \<Rightarrow> exn + X509" where
  "generateCert NDEBUG X rsa_bits cert_days cert_c cert_st cert_o cert_cn self_sign =
     (if \<not> X509_new_ok X then Inl (runtime_error ''X509_new failed'')
      else if \<not> X509_NAME_new_ok X then Inl (runtime_error ''X509_NAME_new failed'')
      else if cert_c \<noteq> [] \<and> \<not> X509_NAME_add_entry_by_txt X ''C'' cert_c
        then Inl (runtime_error ''X509_NAME_add_entry_by_txt failed'')
      else if cert_st \<noteq> [] \<and> \<not> X509_NAME_add_entry_by_txt X ''ST'' cert_st
        then Inl (runtime_error ''X509_NAME_add_entry_by_txt failed'')
      else if cert_o \<noteq> [] \<and> \<not> X509_NAME_add_entry_by_txt X ''O'' cert_o
        then Inl (runtime_error ''X509_NAME_add_entry_by_txt failed'')
      else if \<not> NDEBUG \<and> cert_cn = [] then Inl (assertion_failed ''!cert_cn.empty()'')
      else if \<not> X509_NAME_add_entry_by_txt X ''CN'' cert_cn
        then Inl (runtime_error ''X509_NAME_add_entry_by_txt failed'')
      else if \<not> X509_set_subject_name_ok X
        then Inl (runtime_error ''X509_set_subject_name failed'')
      else
        (case generateRSAKeyPairEVP X rsa_bits of
           Inl ex \<Rightarrow> Inl ex
         | Inr certificate_pkey \<Rightarrow>
             if \<not> X509_set_pubkey_ok X then Inl (runtime_error ''X509_set_pubkey failed'')
             else
               (case X509_gmtime_adj X 0 of
                  None \<Rightarrow> Inl (runtime_error ''X509_gmtime_adj failed'')
                | Some not_before \<Rightarrow>
                    (case X509_gmtime_adj X (60 * 60 * 24 * cert_days) of
                       None \<Rightarrow> Inl (runtime_error ''X509_gmtime_adj failed'')
                     | Some not_after \<Rightarrow>
                         if self_sign \<and> \<not> X509_sign_ok X
                           then Inl (runtime_error ''X509_sign failed'')
                         else
                           (let subj0 = [];
                                subj1 = (if cert_c \<noteq> [] then add_entry subj0 ''C'' (c_str cert_c) else subj0);
                                subj2 = (if cert_st \<noteq> [] then add_entry subj1 ''ST'' (c_str cert_st) else subj1);
                                subj3 = (if cert_o \<noteq> [] then add_entry subj2 ''O'' (c_str cert_o) else subj2);
                                subj = add_entry subj3 ''CN'' (c_str cert_cn)
                            in Inr \<lparr>x_version = 2,
                                    x_serialNumber = urandom X mod 2 ^ 20,
                                    x_subject = subj,
                                    x_pubkey = certificate_pkey,
                                    x_notBefore = not_before,
                                    x_notAfter = not_after,
                                    x_signed_with =
                                      (if self_sign then Some ''sha256'' else None)\<rparr>)))))"

subsection \<open>The spec's words, for comparison\<close>

text \<open>
  The key fingerprint as the spec words it: lowercase hex of SHA-256 over the
  canonical-JSON encoding of the key's value string, trailing newlines stripped
  first.
\<close>

fun strip_trailing_newlines :: "string \<Rightarrow> string" where
  "strip_trailing_newlines [] = []"
| "strip_trailing_newlines (c # s) =
     (if strip_trailing_newlines s = [] \<and> c = newline then []
      else c # strip_trailing_newlines s)"

definition lowercase_hex :: "string \<Rightarrow> string" where
  "lowercase_hex s =
     concat (map (\<lambda>c. [''0123456789abcdef'' ! ((of_char c :: nat) div 16),
                        ''0123456789abcdef'' ! ((of_char c :: nat) mod 16)]) s)"

definition KeyId_spec :: "sodium \<Rightarrow> utils \<Rightarrow> string \<Rightarrow> string" where
  "KeyId_spec S U v =
     lowercase_hex (crypto_hash_sha256 S (jsonToCanonicalStr U (Json_string (strip_trailing_newlines v))))"

text \<open>
  libsodium's contract for multi-part hashing: finalizing after any sequence of
  updates gives the one-shot digest of the concatenated parts.
\<close>

definition multipart_agrees :: "'st multipart \<Rightarrow> (string \<Rightarrow> string) \<Rightarrow> bool" where
  "multipart_agrees mp H =
     (\<forall>parts. mp_final mp (foldl (mp_update mp) (mp_init mp) parts) = H (concat parts))"

text \<open>A private-key string that parses as an RSA key in PEM.\<close>

definition parses_as_RSA_PEM :: "openssl \<Rightarrow> string \<Rightarrow> bool" where
  "parses_as_RSA_PEM L private_key =
     (case parse_PrivateKey L private_key of
        Some (EVP_PKEY_RSA rsa) \<Rightarrow> True
      | _ \<Rightarrow> False)"

subsection \<open>Contracts of the signature primitives\<close>





subsection \<open>Example inputs\<close>

text \<open>
  Concrete libraries and keys, used only to instantiate theorems at closed
  inputs: an OpenSSL that allocates every buffer, parses nothing and has the
  simplest transforms; a libsodium whose digests are prefixes; a hasher that
  keeps the bytes it has seen and digests them at the end; an X.509 library in
  which every call succeeds.
\<close>

definition example_openssl :: openssl where
  "example_openssl =
     \<lparr>BIO_alloc = (\<lambda>buf. True),
      parse_RSA_PUBKEY = (\<lambda>buf. None),
      parse_PrivateKey = (\<lambda>buf. None),
      engine_private_key = (\<lambda>e name. None),
      pss_encode = (\<lambda>rsa mHash sLen. mHash @ replicate sLen (CHR 0x00)),
      private_encrypt = (\<lambda>flen from rsa. Some from),
      public_decrypt = (\<lambda>flen from rsa. Some from),
      verify_PKCS1_PSS = (\<lambda>rsa mHash hLen EM sLen. 0)\<rparr>"

definition example_rsa :: "nat \<Rightarrow> RSA" where
  "example_rsa n = \<lparr>rsa_n = n, rsa_e = 65537, rsa_d = None\<rparr>"

definition example_sodium :: sodium where
  "example_sodium =
     \<lparr>crypto_hash_sha256 = take 32,
      crypto_hash_sha512 = take 64,
      crypto_sign_detached = (\<lambda>m sk. take 64 sk),
      crypto_sign_verify_detached = (\<lambda>sig m pk. - 1)\<rparr>"

definition accumulating_hasher :: "(string \<Rightarrow> string) \<Rightarrow> string multipart" where
  "accumulating_hasher H = \<lparr>mp_init = [], mp_update = (\<lambda>state part. state @ part), mp_final = H\<rparr>"

definition example_x509 :: x509_lib where
  "example_x509 =
     \<lparr>X509_new_ok = True,
      urandom = 12345,
      X509_NAME_new_ok = True,
      add_entry_accepts = (\<lambda>field bytes. True),
      X509_set_subject_name_ok = True,
      RAND_status = 1,
      RAND_poll = 1,
      BN_set_word_ok = True,
      RSA_generate_key_ex = (\<lambda>bits. Some (example_rsa (2 ^ (nat bits - 1) + 1))),
      EVP_PKEY_new_ok = True,
      EVP_PKEY_assign_RSA_ok = True,
      X509_set_pubkey_ok = True,
      X509_gmtime_adj = (\<lambda>adj. Some (1700000000 + adj)),
      X509_sign_ok = True\<rparr>"




declare BN_num_bits.simps [simp del]

declare hash_blocks.simps [simp del]

section \<open>Theorems\<close>

subsection \<open>Hash::shortTag\<close>

lemma Type_ordinal_le_2: "Type_ordinal t \<le> 2"
  by (cases t) simp_all

lemma Type_ordinal_eq_2: "Type_ordinal t = 2 \<longleftrightarrow> t = kUnknownAlgorithm"
  by (cases t) simp_all

lemma to_lower_unknown: "to_lower ''(unknown)'' = ''(unknown)''"
  by code_simp

lemma shortTag_loop_cases:
  "((\<forall>h \<in> set hs. Type_ordinal best \<le> Type_ordinal (h_type h)) \<and> shortTag_loop hs best res = res)
   \<or> (\<exists>i < length hs.
         Type_ordinal (h_type (hs ! i)) < Type_ordinal best
         \<and> (\<forall>j < length hs. Type_ordinal (h_type (hs ! i)) \<le> Type_ordinal (h_type (hs ! j)))
         \<and> (\<forall>j < i. Type_ordinal (h_type (hs ! i)) < Type_ordinal (h_type (hs ! j)))
         \<and> shortTag_loop hs best res = take 12 (h_hash (hs ! i)))"
proof (induction hs arbitrary: best res)
  case Nil
  then show ?case by simp
next
  case (Cons x xs)
  show ?case
  proof (cases "Type_ordinal (h_type x) < Type_ordinal best")
    case True
    from Cons.IH [of "h_type x" "take 12 (h_hash x)"]
    show ?thesis
    proof (elim disjE conjE exE)
      assume all: "\<forall>h \<in> set xs. Type_ordinal (h_type x) \<le> Type_ordinal (h_type h)"
        and r: "shortTag_loop xs (h_type x) (take 12 (h_hash x)) = take 12 (h_hash x)"
      have "\<forall>j < length (x # xs). Type_ordinal (h_type x) \<le> Type_ordinal (h_type ((x # xs) ! j))"
        using all by (auto simp: nth_Cons' )
      with True r have "0 < length (x # xs) \<and>
         Type_ordinal (h_type ((x # xs) ! 0)) < Type_ordinal best
         \<and> (\<forall>j < length (x # xs). Type_ordinal (h_type ((x # xs) ! 0)) \<le> Type_ordinal (h_type ((x # xs) ! j)))
         \<and> (\<forall>j < 0. Type_ordinal (h_type ((x # xs) ! 0)) < Type_ordinal (h_type ((x # xs) ! j)))
         \<and> shortTag_loop (x # xs) best res = take 12 (h_hash ((x # xs) ! 0))"
        by simp
      then show ?thesis by blast
    next
      fix i
      assume i: "i < length xs"
        and lt: "Type_ordinal (h_type (xs ! i)) < Type_ordinal (h_type x)"
        and mn: "\<forall>j < length xs. Type_ordinal (h_type (xs ! i)) \<le> Type_ordinal (h_type (xs ! j))"
        and st: "\<forall>j < i. Type_ordinal (h_type (xs ! i)) < Type_ordinal (h_type (xs ! j))"
        and r: "shortTag_loop xs (h_type x) (take 12 (h_hash x)) = take 12 (h_hash (xs ! i))"
      have "Suc i < length (x # xs) \<and>
         Type_ordinal (h_type ((x # xs) ! Suc i)) < Type_ordinal best
         \<and> (\<forall>j < length (x # xs). Type_ordinal (h_type ((x # xs) ! Suc i)) \<le> Type_ordinal (h_type ((x # xs) ! j)))
         \<and> (\<forall>j < Suc i. Type_ordinal (h_type ((x # xs) ! Suc i)) < Type_ordinal (h_type ((x # xs) ! j)))
         \<and> shortTag_loop (x # xs) best res = take 12 (h_hash ((x # xs) ! Suc i))"
        using i lt mn st r True by (auto simp: nth_Cons split: nat.splits)
      then show ?thesis by blast
    qed
  next
    case False
    from Cons.IH [of best res]
    show ?thesis
    proof (elim disjE conjE exE)
      assume "\<forall>h \<in> set xs. Type_ordinal best \<le> Type_ordinal (h_type h)"
        and "shortTag_loop xs best res = res"
      with False show ?thesis by auto
    next
      fix i
      assume i: "i < length xs"
        and lt: "Type_ordinal (h_type (xs ! i)) < Type_ordinal best"
        and mn: "\<forall>j < length xs. Type_ordinal (h_type (xs ! i)) \<le> Type_ordinal (h_type (xs ! j))"
        and st: "\<forall>j < i. Type_ordinal (h_type (xs ! i)) < Type_ordinal (h_type (xs ! j))"
        and r: "shortTag_loop xs best res = take 12 (h_hash (xs ! i))"
      have "Suc i < length (x # xs) \<and>
         Type_ordinal (h_type ((x # xs) ! Suc i)) < Type_ordinal best
         \<and> (\<forall>j < length (x # xs). Type_ordinal (h_type ((x # xs) ! Suc i)) \<le> Type_ordinal (h_type ((x # xs) ! j)))
         \<and> (\<forall>j < Suc i. Type_ordinal (h_type ((x # xs) ! Suc i)) < Type_ordinal (h_type ((x # xs) ! j)))
         \<and> shortTag_loop (x # xs) best res = take 12 (h_hash ((x # xs) ! Suc i))"
        using i lt mn st r False by (auto simp: nth_Cons split: nat.splits)
      then show ?thesis by blast
    qed
  qed
qed

text \<open>
  Claim C5. For every vector of hashes, \<^verbatim>\<open>Hash::shortTag\<close> selects the entry whose
  algorithm has the lowest ordinal in the order SHA256, SHA512, UnknownAlgorithm
  (the first such entry when several share it) and returns the first 12
  characters of its digest, lower-cased; given one SHA-256 and one SHA-512 entry,
  in either order, it returns the lower-cased 12-character prefix of the SHA-256
  digest; and when no entry has a known algorithm it returns \<^verbatim>\<open>"(unknown)"\<close>.
\<close>

theorem shortTag_lowest_ordinal:
  "((\<forall>h \<in> set hashes. h_type h = kUnknownAlgorithm) \<longrightarrow> shortTag hashes = ''(unknown)'')
   \<and> ((\<exists>h \<in> set hashes. h_type h \<noteq> kUnknownAlgorithm) \<longrightarrow>
        (\<exists>i < length hashes.
           (\<forall>j < length hashes.
              Type_ordinal (h_type (hashes ! i)) \<le> Type_ordinal (h_type (hashes ! j)))
           \<and> (\<forall>j < i. Type_ordinal (h_type (hashes ! i)) < Type_ordinal (h_type (hashes ! j)))
           \<and> shortTag hashes = to_lower (take 12 (h_hash (hashes ! i)))))
   \<and> shortTag [\<lparr>h_type = kSha256, h_hash = a\<rparr>, \<lparr>h_type = kSha512, h_hash = b\<rparr>]
        = to_lower (take 12 a)
   \<and> shortTag [\<lparr>h_type = kSha512, h_hash = b\<rparr>, \<lparr>h_type = kSha256, h_hash = a\<rparr>]
        = to_lower (take 12 a)"
proof (intro conjI impI)
  assume all: "\<forall>h \<in> set hashes. h_type h = kUnknownAlgorithm"
  from shortTag_loop_cases [of hashes kUnknownAlgorithm "''(unknown)''"]
  have "shortTag_loop hashes kUnknownAlgorithm ''(unknown)'' = ''(unknown)''"
  proof (elim disjE conjE exE)
    fix i
    assume "i < length hashes"
      and "Type_ordinal (h_type (hashes ! i)) < Type_ordinal kUnknownAlgorithm"
    with all show ?thesis by (metis nth_mem less_irrefl)
  qed
  then show "shortTag hashes = ''(unknown)''"
    by (simp add: shortTag_def to_lower_unknown)
next
  assume ex: "\<exists>h \<in> set hashes. h_type h \<noteq> kUnknownAlgorithm"
  from shortTag_loop_cases [of hashes kUnknownAlgorithm "''(unknown)''"]
  show "\<exists>i < length hashes.
           (\<forall>j < length hashes.
              Type_ordinal (h_type (hashes ! i)) \<le> Type_ordinal (h_type (hashes ! j)))
           \<and> (\<forall>j < i. Type_ordinal (h_type (hashes ! i)) < Type_ordinal (h_type (hashes ! j)))
           \<and> shortTag hashes = to_lower (take 12 (h_hash (hashes ! i)))"
  proof (elim disjE conjE exE)
    assume "\<forall>h \<in> set hashes. Type_ordinal kUnknownAlgorithm \<le> Type_ordinal (h_type h)"
    then have "\<forall>h \<in> set hashes. h_type h = kUnknownAlgorithm"
      using Type_ordinal_le_2 Type_ordinal_eq_2 by (metis Type_ordinal.simps(3) le_antisym)
    with ex show ?thesis by blast
  next
    fix i
    assume "i < length hashes"
      and "\<forall>j < length hashes. Type_ordinal (h_type (hashes ! i)) \<le> Type_ordinal (h_type (hashes ! j))"
      and "\<forall>j < i. Type_ordinal (h_type (hashes ! i)) < Type_ordinal (h_type (hashes ! j))"
      and "shortTag_loop hashes kUnknownAlgorithm ''(unknown)'' = take 12 (h_hash (hashes ! i))"
    then show ?thesis
      unfolding shortTag_def by metis
  qed
qed (simp_all add: shortTag_def)

theorem shortTag_lowest_ordinal_witness:
  "shortTag [\<lparr>h_type = kUnknownAlgorithm, h_hash = ''AB''\<rparr>] = ''(unknown)''
   \<and> (\<exists>i < length [\<lparr>h_type = kSha512, h_hash = ''FFEEDDCCBBAA99887766''\<rparr>,
                     \<lparr>h_type = kUnknownAlgorithm, h_hash = ''00''\<rparr>,
                     \<lparr>h_type = kSha256, h_hash = ''ABCDEF0123456789''\<rparr>].
        shortTag [\<lparr>h_type = kSha512, h_hash = ''FFEEDDCCBBAA99887766''\<rparr>,
                  \<lparr>h_type = kUnknownAlgorithm, h_hash = ''00''\<rparr>,
                  \<lparr>h_type = kSha256, h_hash = ''ABCDEF0123456789''\<rparr>]
          = to_lower (take 12 (h_hash ([\<lparr>h_type = kSha512, h_hash = ''FFEEDDCCBBAA99887766''\<rparr>,
                  \<lparr>h_type = kUnknownAlgorithm, h_hash = ''00''\<rparr>,
                  \<lparr>h_type = kSha256, h_hash = ''ABCDEF0123456789''\<rparr>] ! i))))
   \<and> shortTag [\<lparr>h_type = kSha512, h_hash = ''FFEEDDCCBBAA99887766''\<rparr>,
               \<lparr>h_type = kUnknownAlgorithm, h_hash = ''00''\<rparr>,
               \<lparr>h_type = kSha256, h_hash = ''ABCDEF0123456789''\<rparr>] = ''abcdef012345''"
proof -
  let ?u = "[\<lparr>h_type = kUnknownAlgorithm, h_hash = ''AB''\<rparr>]"
  let ?H = "[\<lparr>h_type = kSha512, h_hash = ''FFEEDDCCBBAA99887766''\<rparr>,
             \<lparr>h_type = kUnknownAlgorithm, h_hash = ''00''\<rparr>,
             \<lparr>h_type = kSha256, h_hash = ''ABCDEF0123456789''\<rparr>]"
  have a: "\<forall>h \<in> set ?u. h_type h = kUnknownAlgorithm" by simp
  have b: "\<exists>h \<in> set ?H. h_type h \<noteq> kUnknownAlgorithm" by simp
  from a shortTag_lowest_ordinal [where hashes = ?u] have 1: "shortTag ?u = ''(unknown)''"
    by blast
  from b shortTag_lowest_ordinal [where hashes = ?H]
  have 2: "\<exists>i < length ?H. shortTag ?H = to_lower (take 12 (h_hash (?H ! i)))"
    by blast
  have 3: "shortTag ?H = ''abcdef012345''"
    by code_simp
  from 1 2 3 show ?thesis by blast
qed

subsection \<open>PublicKey::KeyId\<close>

lemma tolower_hex_digits: "map tolower hex_digits = ''0123456789abcdef''"
  by code_simp

lemma length_hex_digits: "length hex_digits = 16"
  by (simp add: hex_digits_def)

lemma tolower_hex_digit: "n < 16 \<Longrightarrow> tolower (hex_digits ! n) = ''0123456789abcdef'' ! n"
  using nth_map [of n hex_digits tolower] by (simp add: length_hex_digits tolower_hex_digits)

lemma of_char_div_16: "(of_char (c :: char) :: nat) div 16 < 16"
proof -
  have *: "n div 16 < 16" if "n < 256" for n :: nat
    using that by arith
  have "(of_char c :: nat) < 256" by simp
  then show ?thesis by (rule *)
qed

lemma tolower_hex: "map tolower (hex s) = lowercase_hex s"
  by (induction s) (simp_all add: hex_def hex_byte_def lowercase_hex_def tolower_hex_digit of_char_div_16)

lemma strip_Nil_iff: "strip_trailing_newlines s = [] \<longleftrightarrow> (\<forall>c \<in> set s. c = newline)"
  by (induction s) auto

lemma trim_right_is_strip:
  "trim_right_if (is_any_of [newline]) s = strip_trailing_newlines s"
proof (induction s)
  case Nil
  then show ?case by (simp add: trim_right_if_def)
next
  case (Cons c s)
  show ?case
  proof (cases "\<forall>x \<in> set s. x = newline")
    case True
    then have "strip_trailing_newlines s = []" by (simp add: strip_Nil_iff)
    with True show ?thesis
      by (simp add: trim_right_if_def is_any_of_def dropWhile_append)
  next
    case False
    then have ne: "strip_trailing_newlines s \<noteq> []" by (simp add: strip_Nil_iff)
    from Cons have "dropWhile (is_any_of [newline]) (rev s) = rev (strip_trailing_newlines s)"
      by (simp add: trim_right_if_def rev_swap)
    moreover from False have "\<not> (\<forall>x \<in> set (rev s). is_any_of [newline] x)"
      by (simp add: is_any_of_def)
    ultimately show ?thesis
      using ne by (simp add: trim_right_if_def dropWhile_append)
  qed
qed

lemma trim_right_newline:
  "trim_right_if (is_any_of [newline]) (v @ [newline]) = trim_right_if (is_any_of [newline]) v"
  by (simp add: trim_right_if_def is_any_of_def)

text \<open>
  Claim C7. \<^verbatim>\<open>PublicKey::KeyId\<close> is the lowercase hex encoding of the SHA-256 digest
  of the canonical-JSON encoding of the key's value string with the trailing
  newline characters stripped first (\<open>KeyId_spec\<close>, which follows the spec's
  words); a value with a trailing newline and the same value without it have the
  same fingerprint; and the fingerprint is a function of the stored value alone
  (being a function, it gives the same result at every call).
\<close>

theorem KeyId_fingerprint:
  "KeyId S U pk = KeyId_spec S U (pk_value pk)
   \<and> KeyId S U \<lparr>pk_value = v @ [newline], pk_type = t\<rparr> = KeyId S U \<lparr>pk_value = v, pk_type = t\<rparr>
   \<and> KeyId S U \<lparr>pk_value = v, pk_type = t\<rparr> = KeyId S U \<lparr>pk_value = v, pk_type = t'\<rparr>"
  by (simp add: KeyId_def KeyId_spec_def sha256digest_def tolower_hex trim_right_is_strip [symmetric]
      trim_right_newline)

subsection \<open>Crypto::IdentifyRSAKeyType\<close>

lemma BN_num_bits_0: "BN_num_bits 0 = 0"
  by (simp add: BN_num_bits.simps)

lemma BN_num_bits_pos: "0 < n \<Longrightarrow> BN_num_bits n = Suc (BN_num_bits (n div 2))"
  by (subst BN_num_bits.simps) simp

lemma BN_num_bits_twopow: "b < 2 ^ k \<Longrightarrow> BN_num_bits (2 ^ k + b) = Suc k"
proof (induction k arbitrary: b)
  case 0
  then show ?case by (simp add: BN_num_bits_pos BN_num_bits_0)
next
  case (Suc k)
  have "(2 ^ Suc k + b) div 2 = 2 ^ k + b div 2" by simp
  moreover from Suc.prems have "b div 2 < 2 ^ k" by simp
  ultimately show ?case
    using Suc.IH [of "b div 2"] by (simp add: BN_num_bits_pos)
qed

lemma bits_2047: "BN_num_bits (Suc (2 ^ 2046)) = 2047"
  using BN_num_bits_twopow [of 1 2046] by simp

lemma bits_2048: "BN_num_bits (Suc (2 ^ 2047)) = 2048"
  using BN_num_bits_twopow [of 1 2047] by simp

lemma size_256: "(b + 7) div 8 * 8 = (2048::nat) \<longleftrightarrow> 2041 \<le> b \<and> b \<le> 2048"
  by arith

lemma size_384: "(b + 7) div 8 * 8 = (3072::nat) \<longleftrightarrow> 3065 \<le> b \<and> b \<le> 3072"
  by arith

lemma size_512: "(b + 7) div 8 * 8 = (4096::nat) \<longleftrightarrow> 4089 \<le> b \<and> b \<le> 4096"
  by arith

text \<open>
  Claim C8, as amended. When the memory BIO is allocated, \<^verbatim>\<open>IdentifyRSAKeyType\<close>
  returns RSA2048, RSA3072 or RSA4096 exactly when the input parses as a PEM RSA
  public key whose modulus size in bytes, times 8, is 2048, 3072 or 4096, that
  is, whose modulus has 2041 to 2048, 3065 to 3072 or 4089 to 4096 bits; it
  never throws then, and returns Unknown exactly for input that does not parse
  and for a key of any other size, such as 1024 bits. When the BIO cannot be
  allocated it throws \<^verbatim>\<open>std::runtime_error\<close>.
\<close>

theorem IdentifyRSAKeyType_by_size:
  "(BIO_alloc L pem \<longrightarrow>
      (IdentifyRSAKeyType L pem = Inr kRSA2048 \<longleftrightarrow>
         (\<exists>rsa. parse_RSA_PUBKEY L pem = Some rsa
             \<and> 2041 \<le> BN_num_bits (rsa_n rsa) \<and> BN_num_bits (rsa_n rsa) \<le> 2048))
      \<and> (IdentifyRSAKeyType L pem = Inr kRSA3072 \<longleftrightarrow>
         (\<exists>rsa. parse_RSA_PUBKEY L pem = Some rsa
             \<and> 3065 \<le> BN_num_bits (rsa_n rsa) \<and> BN_num_bits (rsa_n rsa) \<le> 3072))
      \<and> (IdentifyRSAKeyType L pem = Inr kRSA4096 \<longleftrightarrow>
         (\<exists>rsa. parse_RSA_PUBKEY L pem = Some rsa
             \<and> 4089 \<le> BN_num_bits (rsa_n rsa) \<and> BN_num_bits (rsa_n rsa) \<le> 4096))
      \<and> (IdentifyRSAKeyType L pem = Inr kUnknown \<longleftrightarrow>
         (case parse_RSA_PUBKEY L pem of
            None \<Rightarrow> True
          | Some rsa \<Rightarrow>
              \<not> (2041 \<le> BN_num_bits (rsa_n rsa) \<and> BN_num_bits (rsa_n rsa) \<le> 2048)
              \<and> \<not> (3065 \<le> BN_num_bits (rsa_n rsa) \<and> BN_num_bits (rsa_n rsa) \<le> 3072)
              \<and> \<not> (4089 \<le> BN_num_bits (rsa_n rsa) \<and> BN_num_bits (rsa_n rsa) \<le> 4096)))
      \<and> (\<exists>type. IdentifyRSAKeyType L pem = Inr type)
      \<and> (parse_RSA_PUBKEY L pem = None \<longrightarrow> IdentifyRSAKeyType L pem = Inr kUnknown)
      \<and> (\<forall>rsa. parse_RSA_PUBKEY L pem = Some rsa \<and> BN_num_bits (rsa_n rsa) = 1024
            \<longrightarrow> IdentifyRSAKeyType L pem = Inr kUnknown))
   \<and> (\<not> BIO_alloc L pem \<longrightarrow>
      IdentifyRSAKeyType L pem = Inl (runtime_error ''BIO_new_mem_buf failed''))"
  by (auto simp: IdentifyRSAKeyType_def BIO_new_mem_buf_def PEM_read_bio_RSA_PUBKEY_def RSA_size_def
      Let_def size_256 size_384 size_512 split: option.splits)

text \<open>
  The claim as stated (RSA2048 exactly for a modulus of bit length 2048) fails:
  a key whose modulus has 2047 bits occupies 256 bytes and is identified as
  RSA2048.
\<close>

theorem IdentifyRSAKeyType_2047_bits_counterexample:
  "parse_RSA_PUBKEY
       (example_openssl\<lparr>parse_RSA_PUBKEY := [''2047-bit key'' \<mapsto> example_rsa (2 ^ 2046 + 1)]\<rparr>)
       ''2047-bit key'' = Some (example_rsa (2 ^ 2046 + 1))
   \<and> BN_num_bits (rsa_n (example_rsa (2 ^ 2046 + 1))) = 2047
   \<and> IdentifyRSAKeyType
       (example_openssl\<lparr>parse_RSA_PUBKEY := [''2047-bit key'' \<mapsto> example_rsa (2 ^ 2046 + 1)]\<rparr>)
       ''2047-bit key'' = Inr kRSA2048"
  by (simp add: IdentifyRSAKeyType_def BIO_new_mem_buf_def PEM_read_bio_RSA_PUBKEY_def
      RSA_size_def example_openssl_def example_rsa_def bits_2047 del: power_numeral)

theorem IdentifyRSAKeyType_by_size_witness:
  "BIO_alloc
       (example_openssl\<lparr>parse_RSA_PUBKEY := [''2048-bit key'' \<mapsto> example_rsa (2 ^ 2047 + 1)]\<rparr>)
       ''2048-bit key''
   \<and> IdentifyRSAKeyType
       (example_openssl\<lparr>parse_RSA_PUBKEY := [''2048-bit key'' \<mapsto> example_rsa (2 ^ 2047 + 1)]\<rparr>)
       ''2048-bit key'' = Inr kRSA2048
   \<and> IdentifyRSAKeyType example_openssl ''garbage'' = Inr kUnknown"
proof -
  let ?L = "example_openssl\<lparr>parse_RSA_PUBKEY := [''2048-bit key'' \<mapsto> example_rsa (2 ^ 2047 + 1)]\<rparr>"
  have a: "BIO_alloc ?L ''2048-bit key''"
    by (simp add: example_openssl_def)
  have p: "parse_RSA_PUBKEY ?L ''2048-bit key'' = Some (example_rsa (2 ^ 2047 + 1))"
    by simp
  have b: "BN_num_bits (rsa_n (example_rsa (2 ^ 2047 + 1))) = 2048"
    by (simp add: example_rsa_def bits_2048 del: power_numeral)
  from p b have "\<exists>rsa. parse_RSA_PUBKEY ?L ''2048-bit key'' = Some rsa
      \<and> 2041 \<le> BN_num_bits (rsa_n rsa) \<and> BN_num_bits (rsa_n rsa) \<le> 2048"
    by simp
  with IdentifyRSAKeyType_by_size [THEN conjunct1, THEN mp, OF a]
  have 1: "IdentifyRSAKeyType ?L ''2048-bit key'' = Inr kRSA2048"
    by blast
  have a': "BIO_alloc example_openssl ''garbage''"
    by (simp add: example_openssl_def)
  have "parse_RSA_PUBKEY example_openssl ''garbage'' = None"
    by (simp add: example_openssl_def)
  with IdentifyRSAKeyType_by_size [THEN conjunct1, THEN mp, OF a']
  have 2: "IdentifyRSAKeyType example_openssl ''garbage'' = Inr kUnknown"
    by blast
  from a 1 2 show ?thesis by blast
qed

subsection \<open>Hash::generate, streaming and one-shot\<close>

lemma sgetn_concat: "sgetn n cs = (d, r) \<Longrightarrow> concat cs = d @ concat r"
  by (induction n cs arbitrary: d r rule: sgetn.induct) (auto split: if_splits prod.splits)

lemma sgetn_short: "sgetn n cs = (d, r) \<Longrightarrow> length d < n \<Longrightarrow> r = []"
  by (induction n cs arbitrary: d r rule: sgetn.induct) (auto split: if_splits prod.splits)

lemma istream_eq: "pending s = [] \<Longrightarrow> failbit s \<Longrightarrow> s = \<lparr>pending = [], failbit = True\<rparr>"
  by (cases s) simp

lemma hash_blocks_parts:
  "(failbit source \<longrightarrow> pending source = []) \<Longrightarrow>
   \<exists>parts. concat parts = concat (pending source)
     \<and> hash_blocks mp state source buffer count =
         (foldl (mp_update mp) state parts, \<lparr>pending = [], failbit = True\<rparr>,
          count + of_nat (length (concat (pending source))))"
proof (induction mp state source buffer count rule: hash_blocks.induct)
  case (1 mp state source buffer count)
  show ?case
  proof (cases "failbit source")
    case True
    with "1.prems" have s: "source = \<lparr>pending = [], failbit = True\<rparr>"
      by (simp add: istream_eq)
    have "hash_blocks mp state source buffer count = (mp_update mp state [], source, count)"
      by (subst hash_blocks.simps) (simp add: istream_read_def True)
    with s have "concat [[]] = concat (pending source)
     \<and> hash_blocks mp state source buffer count =
         (foldl (mp_update mp) state [[]], \<lparr>pending = [], failbit = True\<rparr>,
          count + of_nat (length (concat (pending source))))"
      by simp
    then show ?thesis by blast
  next
    case False
    obtain data rest where sg: "sgetn (64 * 1024) (pending source) = (data, rest)"
      by (cases "sgetn (64 * 1024) (pending source)")
    define source' where "source' = \<lparr>pending = rest, failbit = (length data < 64 * 1024)\<rparr>"
    have rd: "istream_read source (64 * 1024) = (data, source')"
      using False sg by (simp add: istream_read_def source'_def)
    have rd': "istream_read source 65536 = (data, source')"
      using rd by simp
    have cc: "concat (pending source) = data @ concat rest"
      using sg by (rule sgetn_concat)
    have pre': "failbit source' \<longrightarrow> pending source' = []"
      using sgetn_short [OF sg] by (simp add: source'_def)
    show ?thesis
    proof (cases "data = []")
      case True
      then have "rest = []" using sgetn_short [OF sg] by simp
      with True have s': "source' = \<lparr>pending = [], failbit = True\<rparr>"
        by (simp add: source'_def)
      have hb: "hash_blocks mp state source buffer count = (mp_update mp state [], source', count)"
        by (subst hash_blocks.simps) (simp add: rd' True)
      from cc True \<open>rest = []\<close> have c0: "concat (pending source) = []"
        by simp
      have "concat [[]] = concat (pending source)
       \<and> hash_blocks mp state source buffer count =
           (foldl (mp_update mp) state [[]], \<lparr>pending = [], failbit = True\<rparr>,
            count + of_nat (length (concat (pending source))))"
        unfolding c0 using hb s' by simp
      then show ?thesis by blast
    next
      case False
      define buffer' where "buffer' = data @ drop (length data) buffer"
      define state' where "state' = mp_update mp state (take (length data) buffer')"
      define count' where "count' = count + (of_nat (length data) :: 64 word)"
      have st: "state' = mp_update mp state data"
        by (simp add: state'_def buffer'_def)
      have step: "hash_blocks mp state source buffer count =
          hash_blocks mp state' source' buffer' count'"
        using False
        by (subst hash_blocks.simps) (simp add: rd' Let_def state'_def buffer'_def count'_def)
      from "1.IH" [OF rd [symmetric] refl, of buffer' state' count'] False pre'
      obtain parts where p: "concat parts = concat (pending source')"
        and h: "hash_blocks mp state' source' buffer' count' =
           (foldl (mp_update mp) state' parts, \<lparr>pending = [], failbit = True\<rparr>,
            count' + of_nat (length (concat (pending source'))))"
        by (auto simp: buffer'_def state'_def count'_def)
      have "concat (data # parts) = concat (pending source)
       \<and> hash_blocks mp state source buffer count =
           (foldl (mp_update mp) state (data # parts), \<lparr>pending = [], failbit = True\<rparr>,
            count + of_nat (length (concat (pending source))))"
        using p h step cc st by (simp add: source'_def count'_def)
      then show ?thesis by blast
    qed
  qed
qed

lemma hash_stream_eq:
  assumes "multipart_agrees mp H" and "\<not> failbit source"
  shows "hash_stream mp type source nread =
     (Hash_ctor type (hex (H (concat (pending source)))),
      if nread then Some (of_nat (length (concat (pending source)))) else None,
      \<lparr>pending = [], failbit = True\<rparr>)"
proof -
  from assms(2) hash_blocks_parts [of source mp "mp_init mp" "replicate (64 * 1024) (CHR 0x00)" 0]
  obtain parts where p: "concat parts = concat (pending source)"
    and h: "hash_blocks mp (mp_init mp) source (replicate (64 * 1024) (CHR 0x00)) 0 =
         (foldl (mp_update mp) (mp_init mp) parts, \<lparr>pending = [], failbit = True\<rparr>,
          of_nat (length (concat (pending source))))"
    by auto
  from assms(1) have "mp_final mp (foldl (mp_update mp) (mp_init mp) parts) = H (concat parts)"
    by (simp add: multipart_agrees_def)
  with p h show ?thesis
    by (simp add: hash_stream_def getHash_def getHexDigest_def)
qed

lemma sint_count: "n < 2 ^ 63 \<Longrightarrow> sint (of_nat n :: 64 word) = int n"
proof -
  assume "n < 2 ^ 63"
  then have "int n < 2 ^ 63" by (metis of_nat_less_numeral_power_cancel_iff)
  then have "signed_take_bit 63 (int n) = int n"
    by (intro signed_take_bit_int_eq_self) simp_all
  then show ?thesis by (simp add: signed_of_nat)
qed

lemma foldl_append_acc: "foldl (\<lambda>state part. state @ part) acc parts = acc @ concat parts"
  by (induction parts arbitrary: acc) simp_all

lemma accumulating_hasher_agrees: "multipart_agrees (accumulating_hasher H) H"
  by (simp add: multipart_agrees_def accumulating_hasher_def foldl_append_acc)

text \<open>
  Claim C4. Given libsodium's contract for multi-part hashing, for every byte
  sequence and every split of it into the chunks a stream delivers, the streaming
  \<^verbatim>\<open>Hash::generate\<close> returns the Hash that the one-shot \<^verbatim>\<open>Hash::generate\<close> returns
  for the whole sequence, for SHA256 and for SHA512, and throws the same
  exception for any other type; \<^verbatim>\<open>*nread\<close> is the length of the sequence (as a
  64-bit word; read as a signed number it is the length whenever that is below
  2^63), and the stream is left exhausted.
\<close>

theorem stream_generate_eq_one_shot:
  assumes "multipart_agrees mp256 (crypto_hash_sha256 S)"
    and "multipart_agrees mp512 (crypto_hash_sha512 S)"
    and "\<not> failbit source"
  shows "Hash_generate_stream mp256 mp512 type source nread =
           (case Hash_generate S type (concat (pending source)) of
              Inl ex \<Rightarrow> Inl ex
            | Inr h \<Rightarrow>
                Inr (h,
                     if nread then Some (of_nat (length (concat (pending source)))) else None,
                     \<lparr>pending = [], failbit = True\<rparr>))
         \<and> (length (concat (pending source)) < 2 ^ 63 \<longrightarrow>
              sint (of_nat (length (concat (pending source))) :: 64 word)
                = int (length (concat (pending source))))"
  using assms
  by (cases type)
    (simp_all add: Hash_generate_stream_def Hash_generate_def hash_stream_eq sha256digest_def
      sha512digest_def sint_count)

theorem stream_generate_eq_one_shot_witness:
  "Hash_generate_stream
       (accumulating_hasher (crypto_hash_sha256 example_sodium))
       (accumulating_hasher (crypto_hash_sha512 example_sodium))
       kSha256 \<lparr>pending = [''ab'', [], ''c''], failbit = False\<rparr> True
     = Inr (Hash_ctor kSha256 (hex (crypto_hash_sha256 example_sodium ''abc'')),
            Some 3, \<lparr>pending = [], failbit = True\<rparr>)
   \<and> Hash_generate example_sodium kSha256 ''abc''
     = Inr (Hash_ctor kSha256 (hex (crypto_hash_sha256 example_sodium ''abc'')))"
proof -
  let ?src = "\<lparr>pending = [''ab'', [], ''c''], failbit = False\<rparr>"
  have nf: "\<not> failbit ?src" by simp
  have g: "Hash_generate example_sodium kSha256 ''abc''
     = Inr (Hash_ctor kSha256 (hex (crypto_hash_sha256 example_sodium ''abc'')))"
    by (simp add: Hash_generate_def sha256digest_def)
  from stream_generate_eq_one_shot [OF accumulating_hasher_agrees accumulating_hasher_agrees nf,
      where type = kSha256 and nread = True] g
  show ?thesis by simp
qed

subsection \<open>PublicKey from Uptane JSON, and ToUptane\<close>

lemma tolower_ED25519: "to_lower ''ED25519'' = ''ed25519''"
  by code_simp

lemma tolower_RSA: "to_lower ''RSA'' = ''rsa''"
  by code_simp

lemma json_index_string_is_object:
  "json_index j key = Inr (Json_string s) \<Longrightarrow> isObject j"
  by (cases j) (simp_all add: json_index_def isObject_def)

lemma ToUptane_keytype:
  "json_index (ToUptane pk) ''keytype'' =
     Inr (Json_string (case pk_type pk of
                         kED25519 \<Rightarrow> ''ED25519''
                       | kUnknown \<Rightarrow> ''unknown''
                       | _ \<Rightarrow> ''RSA''))"
  by (cases "pk_type pk") (simp_all add: ToUptane_def json_index_def)

lemma ToUptane_keyval:
  "json_index (ToUptane pk) ''keyval'' = Inr (Json_object [(''public'', Json_string (pk_value pk))])"
  by (simp add: ToUptane_def json_index_def)

lemma PublicKey_of_json_well_formed:
  assumes "json_index j ''keytype'' = Inr (Json_string kt)"
    and "json_index j ''keyval'' = Inr keyval"
    and "json_index keyval ''public'' = Inr (Json_string kv)"
  shows "PublicKey_of_json L j =
     (if to_lower kt = ''ed25519'' then Inr \<lparr>pk_value = kv, pk_type = kED25519\<rparr>
      else if to_lower kt = ''rsa''
        then (case IdentifyRSAKeyType L kv of
                Inl ex \<Rightarrow> Inl ex
              | Inr type \<Rightarrow> Inr \<lparr>pk_value = kv, pk_type = type\<rparr>)
      else Inr \<lparr>pk_value = kv, pk_type = kUnknown\<rparr>)"
  using assms json_index_string_is_object [OF assms(3)]
  by (simp add: PublicKey_of_json_def isString_def asString_def Let_def to_lower_def)

text \<open>
  Claim C6. For a well-formed Uptane key JSON (a string \<^verbatim>\<open>keytype\<close>, an object
  \<^verbatim>\<open>keyval\<close> with a string \<^verbatim>\<open>public\<close>) that declares Ed25519, or declares RSA
  with a key that \<^verbatim>\<open>IdentifyRSAKeyType\<close> identifies as one of the three RSA variants,
  constructing the \<^verbatim>\<open>PublicKey\<close> succeeds and \<^verbatim>\<open>ToUptane\<close> gives back an equivalent
  pair: the same \<^verbatim>\<open>keyval.public\<close> and a \<^verbatim>\<open>keytype\<close> equal to the declared one up
  to case. \<^verbatim>\<open>ToUptane\<close> emits \<^verbatim>\<open>"RSA"\<close> for every RSA variant, \<^verbatim>\<open>"ED25519"\<close> for
  Ed25519 and \<^verbatim>\<open>"unknown"\<close> for Unknown, with \<^verbatim>\<open>keyval.public\<close> the stored value.
\<close>

theorem uptane_json_roundtrip:
  assumes "json_index j ''keytype'' = Inr (Json_string kt)"
    and "json_index j ''keyval'' = Inr keyval"
    and "json_index keyval ''public'' = Inr (Json_string kv)"
    and "to_lower kt = ''ed25519''
         \<or> (to_lower kt = ''rsa'' \<and> (\<exists>type. IdentifyRSAKeyType L kv = Inr type \<and> IsRsaKeyType type))"
  shows "(\<exists>pk K. PublicKey_of_json L j = Inr pk
            \<and> pk_value pk = kv
            \<and> (if to_lower kt = ''ed25519'' then pk_type pk = kED25519
                else IsRsaKeyType (pk_type pk))
            \<and> json_index (ToUptane pk) ''keytype'' = Inr (Json_string K)
            \<and> to_lower K = to_lower kt
            \<and> json_index (ToUptane pk) ''keyval''
                = Inr (Json_object [(''public'', Json_string kv)]))
       \<and> json_index (ToUptane q) ''keytype'' =
            Inr (Json_string (case pk_type q of
                                kED25519 \<Rightarrow> ''ED25519''
                              | kUnknown \<Rightarrow> ''unknown''
                              | _ \<Rightarrow> ''RSA''))
       \<and> json_index (ToUptane q) ''keyval''
            = Inr (Json_object [(''public'', Json_string (pk_value q))])"
proof (intro conjI)
  from assms(4) show "\<exists>pk K. PublicKey_of_json L j = Inr pk
            \<and> pk_value pk = kv
            \<and> (if to_lower kt = ''ed25519'' then pk_type pk = kED25519
                else IsRsaKeyType (pk_type pk))
            \<and> json_index (ToUptane pk) ''keytype'' = Inr (Json_string K)
            \<and> to_lower K = to_lower kt
            \<and> json_index (ToUptane pk) ''keyval''
                = Inr (Json_object [(''public'', Json_string kv)])"
  proof
    assume ed: "to_lower kt = ''ed25519''"
    then have "PublicKey_of_json L j = Inr \<lparr>pk_value = kv, pk_type = kED25519\<rparr>"
      using PublicKey_of_json_well_formed [OF assms(1-3)] by simp
    with ed show ?thesis
      by (simp add: ToUptane_keytype ToUptane_keyval tolower_ED25519)
  next
    assume "to_lower kt = ''rsa'' \<and> (\<exists>type. IdentifyRSAKeyType L kv = Inr type \<and> IsRsaKeyType type)"
    then obtain type where rsa: "to_lower kt = ''rsa''"
      and ty: "IdentifyRSAKeyType L kv = Inr type" "IsRsaKeyType type"
      by blast
    then have "PublicKey_of_json L j = Inr \<lparr>pk_value = kv, pk_type = type\<rparr>"
      using PublicKey_of_json_well_formed [OF assms(1-3)] by simp
    moreover from ty(2) have "json_index (ToUptane \<lparr>pk_value = kv, pk_type = type\<rparr>) ''keytype''
        = Inr (Json_string ''RSA'')"
      by (cases type) (simp_all add: ToUptane_keytype IsRsaKeyType_def)
    ultimately show ?thesis
      using rsa ty(2) by (simp add: ToUptane_keyval tolower_RSA)
  qed
qed (rule ToUptane_keytype ToUptane_keyval)+

theorem uptane_json_roundtrip_witness:
  "(\<exists>pk K. PublicKey_of_json example_openssl
              (Json_object [(''keytype'', Json_string ''Ed25519''),
                            (''keyval'', Json_object [(''public'', Json_string ''0a1b'')])]) = Inr pk
      \<and> pk_value pk = ''0a1b'' \<and> pk_type pk = kED25519
      \<and> json_index (ToUptane pk) ''keytype'' = Inr (Json_string K)
      \<and> to_lower K = to_lower ''Ed25519'')
   \<and> (\<exists>pk K. PublicKey_of_json
              (example_openssl\<lparr>parse_RSA_PUBKEY := [''2048-bit key'' \<mapsto> example_rsa (2 ^ 2047 + 1)]\<rparr>)
              (Json_object [(''keytype'', Json_string ''RSA''),
                            (''keyval'', Json_object [(''public'', Json_string ''2048-bit key'')])]) = Inr pk
      \<and> pk_value pk = ''2048-bit key'' \<and> IsRsaKeyType (pk_type pk)
      \<and> json_index (ToUptane pk) ''keytype'' = Inr (Json_string K)
      \<and> to_lower K = to_lower ''RSA'')"
proof (rule conjI)
  let ?j1 = "Json_object [(''keytype'', Json_string ''Ed25519''),
                          (''keyval'', Json_object [(''public'', Json_string ''0a1b'')])]"
  have e: "to_lower ''Ed25519'' = ''ed25519''" by code_simp
  have k1: "json_index ?j1 ''keytype'' = Inr (Json_string ''Ed25519'')"
    and v1: "json_index ?j1 ''keyval'' = Inr (Json_object [(''public'', Json_string ''0a1b'')])"
    and p1: "json_index (Json_object [(''public'', Json_string ''0a1b'')]) ''public''
               = Inr (Json_string ''0a1b'')"
    by (simp_all add: json_index_def)
  have h1: "to_lower ''Ed25519'' = ''ed25519''
         \<or> (to_lower ''Ed25519'' = ''rsa''
             \<and> (\<exists>type. IdentifyRSAKeyType example_openssl ''0a1b'' = Inr type \<and> IsRsaKeyType type))"
    by (rule disjI1) (rule e)
  from uptane_json_roundtrip [OF k1 v1 p1 h1, THEN conjunct1]
  obtain pk K where a: "PublicKey_of_json example_openssl ?j1 = Inr pk"
    and b: "pk_value pk = ''0a1b''"
    and c: "if to_lower ''Ed25519'' = ''ed25519'' then pk_type pk = kED25519
            else IsRsaKeyType (pk_type pk)"
    and d: "json_index (ToUptane pk) ''keytype'' = Inr (Json_string K)"
    and f: "to_lower K = to_lower ''Ed25519''"
    by (elim exE conjE)
  from c have c': "pk_type pk = kED25519"
    by (simp only: e if_True simp_thms)
  show "\<exists>pk K. PublicKey_of_json example_openssl ?j1 = Inr pk
      \<and> pk_value pk = ''0a1b'' \<and> pk_type pk = kED25519
      \<and> json_index (ToUptane pk) ''keytype'' = Inr (Json_string K)
      \<and> to_lower K = to_lower ''Ed25519''"
    by (intro exI [of _ pk] exI [of _ K] conjI) (rule a b c' d f)+
next
  let ?L = "example_openssl\<lparr>parse_RSA_PUBKEY := [''2048-bit key'' \<mapsto> example_rsa (2 ^ 2047 + 1)]\<rparr>"
  let ?j2 = "Json_object [(''keytype'', Json_string ''RSA''),
                          (''keyval'', Json_object [(''public'', Json_string ''2048-bit key'')])]"
  have r: "to_lower ''RSA'' = ''rsa''" by code_simp
  have ne: "''rsa'' \<noteq> ''ed25519''" by simp
  have k2: "json_index ?j2 ''keytype'' = Inr (Json_string ''RSA'')"
    and v2: "json_index ?j2 ''keyval'' = Inr (Json_object [(''public'', Json_string ''2048-bit key'')])"
    and p2: "json_index (Json_object [(''public'', Json_string ''2048-bit key'')]) ''public''
               = Inr (Json_string ''2048-bit key'')"
    by (simp_all add: json_index_def)
  have id: "IdentifyRSAKeyType ?L ''2048-bit key'' = Inr kRSA2048"
    by (simp add: IdentifyRSAKeyType_def BIO_new_mem_buf_def PEM_read_bio_RSA_PUBKEY_def
        RSA_size_def example_openssl_def example_rsa_def bits_2048 del: power_numeral)
  have "IsRsaKeyType kRSA2048" by (simp add: IsRsaKeyType_def)
  with id have "\<exists>type. IdentifyRSAKeyType ?L ''2048-bit key'' = Inr type \<and> IsRsaKeyType type"
    by (intro exI [of _ kRSA2048] conjI)
  with r have h2: "to_lower ''RSA'' = ''ed25519''
         \<or> (to_lower ''RSA'' = ''rsa''
             \<and> (\<exists>type. IdentifyRSAKeyType ?L ''2048-bit key'' = Inr type \<and> IsRsaKeyType type))"
    by (intro disjI2 conjI)
  from uptane_json_roundtrip [OF k2 v2 p2 h2, THEN conjunct1]
  obtain pk K where a: "PublicKey_of_json ?L ?j2 = Inr pk"
    and b: "pk_value pk = ''2048-bit key''"
    and c: "if to_lower ''RSA'' = ''ed25519'' then pk_type pk = kED25519
            else IsRsaKeyType (pk_type pk)"
    and d: "json_index (ToUptane pk) ''keytype'' = Inr (Json_string K)"
    and f: "to_lower K = to_lower ''RSA''"
    by (elim exE conjE)
  from c ne have c': "IsRsaKeyType (pk_type pk)"
    by (simp only: r if_False simp_thms)
  show "\<exists>pk K. PublicKey_of_json ?L ?j2 = Inr pk
      \<and> pk_value pk = ''2048-bit key'' \<and> IsRsaKeyType (pk_type pk)
      \<and> json_index (ToUptane pk) ''keytype'' = Inr (Json_string K)
      \<and> to_lower K = to_lower ''RSA''"
    by (intro exI [of _ pk] exI [of _ K] conjI) (rule a b c' d f)+
qed

subsection \<open>Crypto::generateCert\<close>

lemma c_str_Nil: "c_str [] = []"
  by (simp add: c_str_def)

lemma add_entry_by_txt_nonempty:
  "field \<in> {''C'', ''ST'', ''O'', ''CN''} \<Longrightarrow> X509_NAME_add_entry_by_txt X field bytes \<Longrightarrow>
   c_str bytes \<noteq> [] \<and> bytes \<noteq> []"
  by (auto simp: X509_NAME_add_entry_by_txt_def entry_size_ok_def c_str_def)

lemma generateCert_empty_cn:
  "\<exists>ex. generateCert NDEBUG X rsa_bits cert_days cert_c cert_st cert_o [] self_sign = Inl ex"
  by (simp add: generateCert_def X509_NAME_add_entry_by_txt_def entry_size_ok_def c_str_Nil)

lemma generateCert_subject_cases:
  "(case generateCert NDEBUG X rsa_bits cert_days cert_c cert_st cert_o cert_cn self_sign of
      Inl ex \<Rightarrow> True
    | Inr cert \<Rightarrow>
        X509_NAME_add_entry_by_txt X ''CN'' cert_cn
        \<and> x_subject cert =
            (if cert_c = [] then [] else [(''C'', c_str cert_c)])
            @ (if cert_st = [] then [] else [(''ST'', c_str cert_st)])
            @ (if cert_o = [] then [] else [(''O'', c_str cert_o)])
            @ [(''CN'', c_str cert_cn)])"
  by (simp add: generateCert_def add_entry_def Let_def split: sum.split option.split)

lemma generateCert_Inr_subject:
  assumes "generateCert NDEBUG X rsa_bits cert_days cert_c cert_st cert_o cert_cn self_sign = Inr cert"
  shows "cert_cn \<noteq> []
   \<and> x_subject cert =
       (if cert_c = [] then [] else [(''C'', c_str cert_c)])
       @ (if cert_st = [] then [] else [(''ST'', c_str cert_st)])
       @ (if cert_o = [] then [] else [(''O'', c_str cert_o)])
       @ [(''CN'', c_str cert_cn)]"
proof -
  from generateCert_subject_cases [where NDEBUG = NDEBUG and X = X and rsa_bits = rsa_bits
      and cert_days = cert_days and cert_c = cert_c and cert_st = cert_st and cert_o = cert_o
      and cert_cn = cert_cn and self_sign = self_sign] assms
  have a: "X509_NAME_add_entry_by_txt X ''CN'' cert_cn"
    and b: "x_subject cert =
       (if cert_c = [] then [] else [(''C'', c_str cert_c)])
       @ (if cert_st = [] then [] else [(''ST'', c_str cert_st)])
       @ (if cert_o = [] then [] else [(''O'', c_str cert_o)])
       @ [(''CN'', c_str cert_cn)]"
    by simp_all
  from a have "cert_cn \<noteq> []"
    using add_entry_by_txt_nonempty [of "''CN''" X cert_cn] by simp
  from this b show ?thesis by (rule conjI)
qed

lemma generateRSAKeyPairEVP_ok:
  assumes "RAND_status X = 1 \<or> RAND_poll X = 1" "BN_set_word_ok X"
    "RSA_generate_key_ex X rsa_bits = Some rsa" "EVP_PKEY_new_ok X" "EVP_PKEY_assign_RSA_ok X"
    "31 \<le> rsa_bits"
  shows "generateRSAKeyPairEVP X rsa_bits = Inr (EVP_PKEY_RSA rsa)"
  using assms by (simp add: generateRSAKeyPairEVP_def)

lemma generateCert_optional_fields:
  assumes "X509_new_ok X" "X509_NAME_new_ok X"
    "cert_c \<noteq> [] \<longrightarrow> X509_NAME_add_entry_by_txt X ''C'' cert_c"
    "cert_st \<noteq> [] \<longrightarrow> X509_NAME_add_entry_by_txt X ''ST'' cert_st"
    "cert_o \<noteq> [] \<longrightarrow> X509_NAME_add_entry_by_txt X ''O'' cert_o"
    "X509_NAME_add_entry_by_txt X ''CN'' cert_cn"
    "X509_set_subject_name_ok X" "RAND_status X = 1 \<or> RAND_poll X = 1" "BN_set_word_ok X"
    "RSA_generate_key_ex X rsa_bits \<noteq> None" "EVP_PKEY_new_ok X" "EVP_PKEY_assign_RSA_ok X"
    "X509_set_pubkey_ok X" "X509_gmtime_adj X 0 \<noteq> None"
    "X509_gmtime_adj X (60 * 60 * 24 * cert_days) \<noteq> None" "self_sign \<longrightarrow> X509_sign_ok X"
    "31 \<le> rsa_bits"
  shows "\<exists>cert. generateCert NDEBUG X rsa_bits cert_days cert_c cert_st cert_o cert_cn self_sign
             = Inr cert
           \<and> x_subject cert =
               (if cert_c = [] then [] else [(''C'', c_str cert_c)])
               @ (if cert_st = [] then [] else [(''ST'', c_str cert_st)])
               @ (if cert_o = [] then [] else [(''O'', c_str cert_o)])
               @ [(''CN'', c_str cert_cn)]"
proof -
  from assms(6) have cn: "cert_cn \<noteq> []"
    using add_entry_by_txt_nonempty [of "''CN''" X cert_cn] by simp
  from assms(10) obtain rsa where "RSA_generate_key_ex X rsa_bits = Some rsa"
    by blast
  with assms have key: "generateRSAKeyPairEVP X rsa_bits = Inr (EVP_PKEY_RSA rsa)"
    by (intro generateRSAKeyPairEVP_ok)
  from assms(14) obtain nb where nb: "X509_gmtime_adj X 0 = Some nb"
    by blast
  from assms(15) obtain na where na: "X509_gmtime_adj X (60 * 60 * 24 * cert_days) = Some na"
    by blast
  have c: "\<not> (cert_c \<noteq> [] \<and> \<not> X509_NAME_add_entry_by_txt X ''C'' cert_c)"
    and st: "\<not> (cert_st \<noteq> [] \<and> \<not> X509_NAME_add_entry_by_txt X ''ST'' cert_st)"
    and o: "\<not> (cert_o \<noteq> [] \<and> \<not> X509_NAME_add_entry_by_txt X ''O'' cert_o)"
    and sg: "\<not> (self_sign \<and> \<not> X509_sign_ok X)"
    using assms(3,4,5,16) by blast+
  have "\<exists>cert. generateCert NDEBUG X rsa_bits cert_days cert_c cert_st cert_o cert_cn self_sign
      = Inr cert"
    unfolding generateCert_def
    by (simp only: assms(1,2,6,7,13) c st o sg cn key nb na not_True_eq_False simp_thms if_False
        sum.case option.case Let_def) blast
  then obtain cert where
    r: "generateCert NDEBUG X rsa_bits cert_days cert_c cert_st cert_o cert_cn self_sign = Inr cert"
    by blast
  with generateCert_Inr_subject [OF r] show ?thesis
    by blast
qed

text \<open>
  Claim C9. Every call of \<^verbatim>\<open>Crypto::generateCert\<close> with an empty common name fails:
  it returns no certificate, whether the assertion is compiled in (it aborts) or
  not (OpenSSL refuses the empty value and the call throws). A certificate that
  is returned has a non-empty common name, and its subject holds C, ST and O
  exactly for the non-empty ones among country, state and organization, followed
  by CN. Each of the three may be empty: when the library calls made succeed
  (the entries added are those of the non-empty fields), the call returns a
  certificate, whichever of the three are empty.
\<close>

theorem generateCert_common_name_mandatory:
  "(\<exists>ex. generateCert NDEBUG X rsa_bits cert_days cert_c cert_st cert_o [] self_sign = Inl ex)
   \<and> (generateCert NDEBUG X rsa_bits cert_days cert_c cert_st cert_o cert_cn self_sign = Inr cert
        \<longrightarrow>
        cert_cn \<noteq> []
        \<and> x_subject cert =
            (if cert_c = [] then [] else [(''C'', c_str cert_c)])
            @ (if cert_st = [] then [] else [(''ST'', c_str cert_st)])
            @ (if cert_o = [] then [] else [(''O'', c_str cert_o)])
            @ [(''CN'', c_str cert_cn)])
   \<and> (X509_new_ok X \<and> X509_NAME_new_ok X
        \<and> (cert_c \<noteq> [] \<longrightarrow> X509_NAME_add_entry_by_txt X ''C'' cert_c)
        \<and> (cert_st \<noteq> [] \<longrightarrow> X509_NAME_add_entry_by_txt X ''ST'' cert_st)
        \<and> (cert_o \<noteq> [] \<longrightarrow> X509_NAME_add_entry_by_txt X ''O'' cert_o)
        \<and> X509_NAME_add_entry_by_txt X ''CN'' cert_cn
        \<and> X509_set_subject_name_ok X \<and> (RAND_status X = 1 \<or> RAND_poll X = 1)
        \<and> BN_set_word_ok X \<and> RSA_generate_key_ex X rsa_bits \<noteq> None \<and> EVP_PKEY_new_ok X
        \<and> EVP_PKEY_assign_RSA_ok X \<and> X509_set_pubkey_ok X \<and> X509_gmtime_adj X 0 \<noteq> None
        \<and> X509_gmtime_adj X (60 * 60 * 24 * cert_days) \<noteq> None
        \<and> (self_sign \<longrightarrow> X509_sign_ok X) \<and> 31 \<le> rsa_bits \<longrightarrow>
        (\<exists>c. generateCert NDEBUG X rsa_bits cert_days cert_c cert_st cert_o cert_cn self_sign
                = Inr c
           \<and> x_subject c =
               (if cert_c = [] then [] else [(''C'', c_str cert_c)])
               @ (if cert_st = [] then [] else [(''ST'', c_str cert_st)])
               @ (if cert_o = [] then [] else [(''O'', c_str cert_o)])
               @ [(''CN'', c_str cert_cn)]))"
proof (intro conjI impI)
  show "\<exists>ex. generateCert NDEBUG X rsa_bits cert_days cert_c cert_st cert_o [] self_sign = Inl ex"
    by (rule generateCert_empty_cn)
next
  assume "generateCert NDEBUG X rsa_bits cert_days cert_c cert_st cert_o cert_cn self_sign = Inr cert"
  then show "cert_cn \<noteq> []"
    and "x_subject cert =
            (if cert_c = [] then [] else [(''C'', c_str cert_c)])
            @ (if cert_st = [] then [] else [(''ST'', c_str cert_st)])
            @ (if cert_o = [] then [] else [(''O'', c_str cert_o)])
            @ [(''CN'', c_str cert_cn)]"
    using generateCert_Inr_subject by blast+
next
  assume "X509_new_ok X \<and> X509_NAME_new_ok X
        \<and> (cert_c \<noteq> [] \<longrightarrow> X509_NAME_add_entry_by_txt X ''C'' cert_c)
        \<and> (cert_st \<noteq> [] \<longrightarrow> X509_NAME_add_entry_by_txt X ''ST'' cert_st)
        \<and> (cert_o \<noteq> [] \<longrightarrow> X509_NAME_add_entry_by_txt X ''O'' cert_o)
        \<and> X509_NAME_add_entry_by_txt X ''CN'' cert_cn
        \<and> X509_set_subject_name_ok X \<and> (RAND_status X = 1 \<or> RAND_poll X = 1)
        \<and> BN_set_word_ok X \<and> RSA_generate_key_ex X rsa_bits \<noteq> None \<and> EVP_PKEY_new_ok X
        \<and> EVP_PKEY_assign_RSA_ok X \<and> X509_set_pubkey_ok X \<and> X509_gmtime_adj X 0 \<noteq> None
        \<and> X509_gmtime_adj X (60 * 60 * 24 * cert_days) \<noteq> None
        \<and> (self_sign \<longrightarrow> X509_sign_ok X) \<and> 31 \<le> rsa_bits"
  then show "\<exists>c. generateCert NDEBUG X rsa_bits cert_days cert_c cert_st cert_o cert_cn self_sign
                = Inr c
           \<and> x_subject c =
               (if cert_c = [] then [] else [(''C'', c_str cert_c)])
               @ (if cert_st = [] then [] else [(''ST'', c_str cert_st)])
               @ (if cert_o = [] then [] else [(''O'', c_str cert_o)])
               @ [(''CN'', c_str cert_cn)]"
    by (elim conjE) (rule generateCert_optional_fields; assumption)
qed

theorem generateCert_common_name_mandatory_witness:
  "(\<exists>ex. generateCert False example_x509 2048 365 ''US'' ''CA'' ''Acme'' [] True = Inl ex)
   \<and> (\<exists>ex. generateCert True example_x509 2048 365 ''US'' ''CA'' ''Acme'' [] True = Inl ex)
   \<and> (\<exists>c. generateCert True example_x509 2048 365 [] [] [] ''device-123'' True = Inr c
         \<and> x_subject c = [(''CN'', ''device-123'')])
   \<and> (\<exists>c. generateCert False example_x509 2048 365 [] ''CA'' ''Acme'' ''device-123'' True = Inr c
         \<and> x_subject c = [(''ST'', ''CA''), (''O'', ''Acme''), (''CN'', ''device-123'')])
   \<and> (\<exists>c. generateCert False example_x509 2048 365 ''US'' [] ''Acme'' ''device-123'' True = Inr c
         \<and> x_subject c = [(''C'', ''US''), (''O'', ''Acme''), (''CN'', ''device-123'')])"
proof -
  note t = generateCert_common_name_mandatory
  have ok: "X509_new_ok example_x509 \<and> X509_NAME_new_ok example_x509
        \<and> (cert_c \<noteq> [] \<longrightarrow> X509_NAME_add_entry_by_txt example_x509 ''C'' cert_c)
        \<and> (cert_st \<noteq> [] \<longrightarrow> X509_NAME_add_entry_by_txt example_x509 ''ST'' cert_st)
        \<and> (cert_o \<noteq> [] \<longrightarrow> X509_NAME_add_entry_by_txt example_x509 ''O'' cert_o)
        \<and> X509_NAME_add_entry_by_txt example_x509 ''CN'' ''device-123''
        \<and> X509_set_subject_name_ok example_x509
        \<and> (RAND_status example_x509 = 1 \<or> RAND_poll example_x509 = 1)
        \<and> BN_set_word_ok example_x509 \<and> RSA_generate_key_ex example_x509 2048 \<noteq> None
        \<and> EVP_PKEY_new_ok example_x509
        \<and> EVP_PKEY_assign_RSA_ok example_x509 \<and> X509_set_pubkey_ok example_x509
        \<and> X509_gmtime_adj example_x509 0 \<noteq> None
        \<and> X509_gmtime_adj example_x509 (60 * 60 * 24 * 365) \<noteq> None
        \<and> (True \<longrightarrow> X509_sign_ok example_x509) \<and> (31::int) \<le> 2048"
    if "cert_c \<in> {[], ''US''}" "cert_st \<in> {[], ''CA''}" "cert_o \<in> {[], ''Acme''}"
    for cert_c cert_st cert_o
    using that
    by (auto simp: example_x509_def X509_NAME_add_entry_by_txt_def entry_size_ok_def c_str_def)
  have cs: "c_str ''US'' = ''US''" "c_str ''CA'' = ''CA''" "c_str ''Acme'' = ''Acme''"
    "c_str ''device-123'' = ''device-123''"
    by (simp_all add: c_str_def)
  from t [where NDEBUG = False and X = example_x509 and cert_c = "''US''" and cert_st = "''CA''"
      and cert_o = "''Acme''" and rsa_bits = 2048 and cert_days = 365 and self_sign = True]
  have 1: "\<exists>ex. generateCert False example_x509 2048 365 ''US'' ''CA'' ''Acme'' [] True = Inl ex"
    by (rule conjunct1)
  from t [where NDEBUG = True and X = example_x509 and cert_c = "''US''" and cert_st = "''CA''"
      and cert_o = "''Acme''" and rsa_bits = 2048 and cert_days = 365 and self_sign = True]
  have 2: "\<exists>ex. generateCert True example_x509 2048 365 ''US'' ''CA'' ''Acme'' [] True = Inl ex"
    by (rule conjunct1)
  from t [where NDEBUG = True and X = example_x509 and cert_c = "[]" and cert_st = "[]"
      and cert_o = "[]" and cert_cn = "''device-123''" and rsa_bits = 2048 and cert_days = 365
      and self_sign = True, THEN conjunct2, THEN conjunct2, THEN mp, OF ok]
  have 3: "\<exists>c. generateCert True example_x509 2048 365 [] [] [] ''device-123'' True = Inr c
         \<and> x_subject c = [(''CN'', ''device-123'')]"
    by (simp add: cs)
  from t [where NDEBUG = False and X = example_x509 and cert_c = "[]" and cert_st = "''CA''"
      and cert_o = "''Acme''" and cert_cn = "''device-123''" and rsa_bits = 2048 and cert_days = 365
      and self_sign = True, THEN conjunct2, THEN conjunct2, THEN mp, OF ok]
  have 4: "\<exists>c. generateCert False example_x509 2048 365 [] ''CA'' ''Acme'' ''device-123'' True = Inr c
         \<and> x_subject c = [(''ST'', ''CA''), (''O'', ''Acme''), (''CN'', ''device-123'')]"
    by (simp add: cs)
  from t [where NDEBUG = False and X = example_x509 and cert_c = "''US''" and cert_st = "[]"
      and cert_o = "''Acme''" and cert_cn = "''device-123''" and rsa_bits = 2048 and cert_days = 365
      and self_sign = True, THEN conjunct2, THEN conjunct2, THEN mp, OF ok]
  have 5: "\<exists>c. generateCert False example_x509 2048 365 ''US'' [] ''Acme'' ''device-123'' True = Inr c
         \<and> x_subject c = [(''C'', ''US''), (''O'', ''Acme''), (''CN'', ''device-123'')]"
    by (simp add: cs)
  from 1 2 3 4 5 show ?thesis by (intro conjI)
qed

subsection \<open>Crypto::Sign\<close>

text \<open>
  Claim C10, as amended. For every key type other than ED25519, Unknown
  included, \<^verbatim>\<open>Crypto::Sign\<close> is \<^verbatim>\<open>Crypto::RSAPSSSign\<close> on the same arguments: the
  type is not rejected and nothing is thrown. With a null engine, where the
  private-key string is parsed as PEM, a string that does not parse as an RSA
  key gives the empty string, in particular for the key type Unknown. With an
  engine the string names a key of the engine, and the empty string is returned
  when the engine does not load it as an RSA key.
\<close>

theorem Sign_dispatches_to_RSAPSS:
  "(key_type \<noteq> kED25519 \<longrightarrow>
      Sign L S key_type engine private_key message
        = Inr (RSAPSSSign L S engine private_key message))
   \<and> (key_type \<noteq> kED25519 \<and> \<not> parses_as_RSA_PEM L private_key \<longrightarrow>
      Sign L S key_type None private_key message = Inr [])
   \<and> (\<not> parses_as_RSA_PEM L private_key \<longrightarrow>
      Sign L S kUnknown None private_key message = Inr [])
   \<and> (key_type \<noteq> kED25519 \<and> engine_private_key L e private_key = None \<longrightarrow>
      Sign L S key_type (Some e) private_key message = Inr [])
   \<and> (key_type \<noteq> kED25519
        \<and> (\<forall>rsa. engine_private_key L e private_key \<noteq> Some (EVP_PKEY_RSA rsa)) \<longrightarrow>
      Sign L S key_type (Some e) private_key message = Inr [])"
  by (auto simp: Sign_def RSAPSSSign_def parses_as_RSA_PEM_def PEM_read_bio_PrivateKey_def
      BIO_new_mem_buf_def EVP_PKEY_get1_RSA_def split: option.splits EVP_PKEY.splits)

text \<open>
  The claim as stated, without the null engine, fails: with an engine that
  loads an RSA key under the given name, the key type Unknown and a string that
  does not parse as PEM give a signature, not the empty string.
\<close>

theorem Sign_with_engine_counterexample:
  "\<not> parses_as_RSA_PEM
        (example_openssl\<lparr>engine_private_key :=
           (\<lambda>e. [''key id'' \<mapsto> EVP_PKEY_RSA (example_rsa (2 ^ 2047 + 1))])\<rparr>)
        ''key id''
   \<and> Sign (example_openssl\<lparr>engine_private_key :=
           (\<lambda>e. [''key id'' \<mapsto> EVP_PKEY_RSA (example_rsa (2 ^ 2047 + 1))])\<rparr>)
        example_sodium kUnknown (Some (ENGINE ''pkcs11'')) ''key id'' ''message''
      = Inr (''message'' @ replicate 32 (CHR 0x00))
   \<and> ''message'' @ replicate 32 (CHR 0x00) \<noteq> []"
proof -
  have "pss_emLen (example_rsa (2 ^ 2047 + 1)) = 256"
    by (simp add: pss_emLen_def RSA_size_def example_rsa_def bits_2048 del: power_numeral)
  then show ?thesis
    by (simp add: Sign_def RSAPSSSign_def parses_as_RSA_PEM_def EVP_PKEY_get1_RSA_def
        RSA_padding_add_PKCS1_PSS_def sha256digest_def sha256_size_def
        RSA_PSS_SALTLEN_DIGEST_def RSA_PSS_SALTLEN_MAX_SIGN_def RSA_PSS_SALTLEN_MAX_def
        example_openssl_def example_sodium_def Let_def del: power_numeral)
qed

theorem Sign_dispatches_to_RSAPSS_witness:
  "\<not> parses_as_RSA_PEM example_openssl ''not a PEM key''
   \<and> Sign example_openssl example_sodium kUnknown None ''not a PEM key'' ''message'' = Inr []
   \<and> Sign example_openssl example_sodium kRSA2048 (Some (ENGINE ''pkcs11'')) ''key id'' ''message''
       = Inr (RSAPSSSign example_openssl example_sodium (Some (ENGINE ''pkcs11'')) ''key id'' ''message'')
   \<and> Sign example_openssl example_sodium kUnknown (Some (ENGINE ''pkcs11'')) ''key id'' ''message''
       = Inr []"
proof -
  have n: "\<not> parses_as_RSA_PEM example_openssl ''not a PEM key''"
    by (simp add: parses_as_RSA_PEM_def example_openssl_def)
  have k: "kRSA2048 \<noteq> kED25519" by simp
  have u: "kUnknown \<noteq> kED25519" by simp
  have e: "engine_private_key example_openssl (ENGINE ''pkcs11'') ''key id'' = None"
    by (simp add: example_openssl_def)
  note t = Sign_dispatches_to_RSAPSS
  from n t [where L = example_openssl and private_key = "''not a PEM key''"
      and S = example_sodium and message = "''message''"]
  have 1: "Sign example_openssl example_sodium kUnknown None ''not a PEM key'' ''message'' = Inr []"
    by blast
  from k t [where key_type = kRSA2048 and L = example_openssl and S = example_sodium
      and engine = "Some (ENGINE ''pkcs11'')" and private_key = "''key id''"
      and message = "''message''"]
  have 2: "Sign example_openssl example_sodium kRSA2048 (Some (ENGINE ''pkcs11'')) ''key id'' ''message''
       = Inr (RSAPSSSign example_openssl example_sodium (Some (ENGINE ''pkcs11'')) ''key id'' ''message'')"
    by blast
  from u e t [where key_type = kUnknown and L = example_openssl and S = example_sodium
      and e = "ENGINE ''pkcs11''" and private_key = "''key id''" and message = "''message''"]
  have 3: "Sign example_openssl example_sodium kUnknown (Some (ENGINE ''pkcs11'')) ''key id'' ''message''
       = Inr []"
    by blast
  from n 1 2 3 show ?thesis by (intro conjI)
qed

subsection \<open>PublicKey::VerifySignature\<close>

text \<open>
  Claim C3 says that \<^verbatim>\<open>VerifySignature\<close> never throws. The code does throw: the
  Uptane key JSON with \<^verbatim>\<open>keytype\<close> \<^verbatim>\<open>"ed25519"\<close> and the value \<^verbatim>\<open>"zz"\<close> constructs
  an ED25519 key, and verifying any signature of any message with that key
  throws \<^verbatim>\<open>boost::algorithm::non_hex_input\<close> out of \<^verbatim>\<open>unhex\<close>, whatever the
  libraries return.
\<close>

theorem VerifySignature_throws_on_non_hex_key:
  "PublicKey_of_json L
       (Json_object [(''keytype'', Json_string ''ed25519''),
                     (''keyval'', Json_object [(''public'', Json_string ''zz'')])])
     = Inr \<lparr>pk_value = ''zz'', pk_type = kED25519\<rparr>
   \<and> VerifySignature L S U \<lparr>pk_value = ''zz'', pk_type = kED25519\<rparr> signature message
     = Inl non_hex_input"
proof
  have "to_lower ''ed25519'' = ''ed25519''" by code_simp
  then show "PublicKey_of_json L
       (Json_object [(''keytype'', Json_string ''ed25519''),
                     (''keyval'', Json_object [(''public'', Json_string ''zz'')])])
     = Inr \<lparr>pk_value = ''zz'', pk_type = kED25519\<rparr>"
    by (simp add: PublicKey_of_json_def json_index_def isString_def isObject_def asString_def
        to_lower_def)
  have "unhex ''zz'' = Inl non_hex_input" by code_simp
  then show "VerifySignature L S U \<lparr>pk_value = ''zz'', pk_type = kED25519\<rparr> signature message
     = Inl non_hex_input"
    by (simp add: VerifySignature_def)
qed

subsection \<open>Crypto::RSAPSSSign\<close>

lemma pss_emLen_2048: "BN_num_bits (rsa_n rsa) = 2048 \<Longrightarrow> pss_emLen rsa = 256"
  by (simp add: pss_emLen_def RSA_size_def)

text \<open>
  Claim C2 says that signing pads with the maximum possible salt length. With a
  2048-bit key parsed from PEM, \<^verbatim>\<open>RSAPSSSign\<close> signs the PSS encoding of the
  SHA-256 digest with a salt of 32 bytes, the length of the digest: that is what
  the argument -1 means to OpenSSL. The maximum, which the argument -2 selects,
  is 222 bytes for this key.
\<close>

theorem RSAPSSSign_salt_is_digest_length:
  assumes "BIO_alloc L private_key"
    and "parse_PrivateKey L private_key = Some (EVP_PKEY_RSA rsa)"
    and "BN_num_bits (rsa_n rsa) = 2048"
  shows "RSAPSSSign L S None private_key message =
           (case private_encrypt L 256 (pss_encode L rsa (crypto_hash_sha256 S message) 32) rsa of
              None \<Rightarrow> []
            | Some pSignature \<Rightarrow> pSignature)
       \<and> RSA_padding_add_PKCS1_PSS L rsa (crypto_hash_sha256 S message) sha256_size
             RSA_PSS_SALTLEN_MAX_SIGN
           = Some (pss_encode L rsa (crypto_hash_sha256 S message) 222)"
  using assms pss_emLen_2048 [OF assms(3)]
  by (simp add: RSAPSSSign_def PEM_read_bio_PrivateKey_def BIO_new_mem_buf_def
      EVP_PKEY_get1_RSA_def RSA_padding_add_PKCS1_PSS_def sha256digest_def sha256_size_def
      RSA_PSS_SALTLEN_DIGEST_def RSA_PSS_SALTLEN_MAX_SIGN_def RSA_PSS_SALTLEN_MAX_def
      RSA_size_def Let_def)

theorem RSAPSSSign_salt_is_digest_length_witness:
  "RSAPSSSign
       (example_openssl\<lparr>parse_PrivateKey := [''2048-bit key'' \<mapsto> EVP_PKEY_RSA (example_rsa (2 ^ 2047 + 1))]\<rparr>)
       example_sodium None ''2048-bit key'' ''message''
     = ''message'' @ replicate 32 (CHR 0x00)"
proof -
  let ?L = "example_openssl\<lparr>parse_PrivateKey := [''2048-bit key'' \<mapsto> EVP_PKEY_RSA (example_rsa (2 ^ 2047 + 1))]\<rparr>"
  have a: "BIO_alloc ?L ''2048-bit key''"
    by (simp add: example_openssl_def)
  have p: "parse_PrivateKey ?L ''2048-bit key'' = Some (EVP_PKEY_RSA (example_rsa (2 ^ 2047 + 1)))"
    by simp
  have b: "BN_num_bits (rsa_n (example_rsa (2 ^ 2047 + 1))) = 2048"
    by (simp add: example_rsa_def bits_2048 del: power_numeral)
  from RSAPSSSign_salt_is_digest_length [OF a p b, of example_sodium "''message''", THEN conjunct1]
  show ?thesis
    by (simp add: example_openssl_def example_sodium_def del: power_numeral)
qed

subsection \<open>Sign, then VerifySignature\<close>






















end
